theory Spec2Isabelle
  imports Complex_Main "HOL-Library.AList"
begin

section \<open>Numbers and strings of the host language\<close>

text \<open>
  The position functions of \<^verbatim>\<open>src/types/CRDT.ts\<close> read the first component of a key
  with \<^verbatim>\<open>parseFloat\<close>, add or subtract one or halve a difference, and print the
  result back into a key. A JavaScript number is modelled as \<open>NaN\<close> or an exact
  rational. The model coincides with the double arithmetic of the source as long as
  the integers involved are safe integers (magnitude below \<open>2^53\<close>, see \<open>safeInteger\<close>):
  there \<open>n + 1\<close>, \<open>n - 1\<close> and the midpoint of two integers are computed exactly.
  Statements that depend on the value of such arithmetic carry that bound.
\<close>

datatype number = NaN | Num rat

definition numSub :: "number \<Rightarrow> number \<Rightarrow> number" where
  "numSub a b = (case a of NaN \<Rightarrow> NaN | Num x \<Rightarrow> (case b of NaN \<Rightarrow> NaN | Num y \<Rightarrow> Num (x - y)))"

definition numAdd :: "number \<Rightarrow> number \<Rightarrow> number" where
  "numAdd a b = (case a of NaN \<Rightarrow> NaN | Num x \<Rightarrow> (case b of NaN \<Rightarrow> NaN | Num y \<Rightarrow> Num (x + y)))"

definition numHalf :: "number \<Rightarrow> number" where
  "numHalf a = (case a of NaN \<Rightarrow> NaN | Num x \<Rightarrow> Num (x / 2))"

text \<open>\<^verbatim>\<open>a !== b\<close> on numbers: \<open>NaN\<close> differs from everything, itself included.\<close>

definition numNeq :: "number \<Rightarrow> number \<Rightarrow> bool" where
  "numNeq a b = (case a of NaN \<Rightarrow> True | Num x \<Rightarrow> (case b of NaN \<Rightarrow> True | Num y \<Rightarrow> x \<noteq> y))"

definition isNaN :: "number \<Rightarrow> bool" where
  "isNaN a = (case a of NaN \<Rightarrow> True | Num x \<Rightarrow> False)"

definition numPositive :: "number \<Rightarrow> bool" where
  "numPositive a = (case a of NaN \<Rightarrow> False | Num x \<Rightarrow> 0 < x)"

definition numNegative :: "number \<Rightarrow> bool" where
  "numNegative a = (case a of NaN \<Rightarrow> False | Num x \<Rightarrow> x < 0)"

definition safeInteger :: "int \<Rightarrow> bool" where
  "safeInteger n = (\<bar>n\<bar> < 2 ^ 53)"

subsection \<open>Decimal digits\<close>

definition isDigit :: "char \<Rightarrow> bool" where
  "isDigit c = (c \<in> set ''0123456789'')"

definition digitChar :: "nat \<Rightarrow> char" where
  "digitChar d = ''0123456789'' ! d"

text \<open>The value of a decimal digit is its code unit minus that of \<^verbatim>\<open>0\<close>.\<close>

definition digitValue :: "char \<Rightarrow> nat" where
  "digitValue c = of_char c - 48"

fun showNat :: "nat \<Rightarrow> string" where
  "showNat n = (if n < 10 then [digitChar n] else showNat (n div 10) @ [digitChar (n mod 10)])"

declare showNat.simps [simp del]

definition digitsValue :: "string \<Rightarrow> nat" where
  "digitsValue ds = foldl (\<lambda>acc c. acc * 10 + digitValue c) 0 ds"

definition showInt :: "int \<Rightarrow> string" where
  "showInt i = (if i < 0 then CHR ''-'' # showNat (nat (- i)) else showNat (nat i))"

text \<open>
  \<^verbatim>\<open>`${x}`\<close> for a number. Every number the position functions compute from parsed
  components is an integer or an integer plus one half (the components hold no dot,
  and the only division is by two); for these the string below is the exact decimal
  expansion that the host prints (for magnitudes below \<open>10^21\<close>).
\<close>

definition numberToString :: "number \<Rightarrow> string" where
  "numberToString a =
     (case a of
        NaN \<Rightarrow> ''NaN''
      | Num x \<Rightarrow>
          (if x < 0 then ''-'' else '''') @ showNat (nat \<lfloor>\<bar>x\<bar>\<rfloor>) @
          (if \<bar>x\<bar> = of_int \<lfloor>\<bar>x\<bar>\<rfloor> then '''' else ''.5''))"

text \<open>
  \<^verbatim>\<open>parseFloat\<close> on the fragment the keys use: an optional sign and a run of decimal
  digits; whatever follows the digits is ignored, and a string that does not start
  this way gives \<open>NaN\<close>. Leading white space, a fraction (the argument is always a
  component produced by \<^verbatim>\<open>split('.')\<close> or a string without a dot), an exponent part
  and the word \<^verbatim>\<open>Infinity\<close> lie outside the fragment. \<^verbatim>\<open>-0\<close> is \<open>0\<close>: the source only
  compares and adds, where the two agree.
\<close>

definition parseFloat :: "string \<Rightarrow> number" where
  "parseFloat s =
     (let neg = (s \<noteq> [] \<and> hd s = CHR ''-'');
          body = (if s \<noteq> [] \<and> (hd s = CHR ''-'' \<or> hd s = CHR ''+'') then tl s else s);
          ds = takeWhile isDigit body
      in if ds = [] then NaN
         else Num (of_int (if neg then - int (digitsValue ds) else int (digitsValue ds))))"

text \<open>
  A decimal integer: an optional sign and a non-empty run of decimal digits, and nothing
  else. On such a string the host's \<^verbatim>\<open>parseFloat\<close> reads the whole string.
\<close>

definition decimalInteger :: "string \<Rightarrow> bool" where
  "decimalInteger s =
     (let body = (if s \<noteq> [] \<and> (hd s = CHR ''-'' \<or> hd s = CHR ''+'') then tl s else s)
      in body \<noteq> [] \<and> list_all isDigit body)"

text \<open>\<^verbatim>\<open>s.split('.')\<close>: the separator never occurs in a part, and there is always a part.\<close>

fun split :: "char \<Rightarrow> string \<Rightarrow> string list" where
  "split sep [] = [[]]"
| "split sep (c # cs) =
     (if c = sep then [] # split sep cs
      else (case split sep cs of [] \<Rightarrow> [[c]] | p # ps \<Rightarrow> (c # p) # ps))"

text \<open>
  \<^verbatim>\<open>a.localeCompare(b)\<close> depends on the host's collation. It is modelled by the order
  of code units, with results \<open>-1\<close>, \<open>0\<close>, \<open>1\<close>; the two agree on equal strings and on
  strings that first differ in two decimal digits, which is all that the statements
  below use.
\<close>

fun localeCompare :: "string \<Rightarrow> string \<Rightarrow> number" where
  "localeCompare [] [] = Num 0"
| "localeCompare [] (y # ys) = Num (- 1)"
| "localeCompare (x # xs) [] = Num 1"
| "localeCompare (x # xs) (y # ys) =
     (if (of_char x :: nat) < of_char y then Num (- 1)
      else if (of_char y :: nat) < of_char x then Num 1
      else localeCompare xs ys)"

section \<open>Fractional positions (src/types/CRDT.ts)\<close>

definition generateBetween :: "string \<Rightarrow> string \<Rightarrow> string \<Rightarrow> string" where
  "generateBetween prev next clientId =
     (let prevNum = parseFloat (hd (split CHR ''.'' prev));
          nextNum = parseFloat (hd (split CHR ''.'' next));
          midNum = numAdd prevNum (numHalf (numSub nextNum prevNum))
      in numberToString midNum @ ''.'' @ clientId)"

definition generateBefore :: "string \<Rightarrow> string \<Rightarrow> string" where
  "generateBefore pos clientId =
     (let parts = split CHR ''.'' pos;
          num = parseFloat (hd parts)
      in numberToString (numSub num (Num 1)) @ ''.0.'' @ clientId)"

definition generateAfter :: "string \<Rightarrow> string \<Rightarrow> string" where
  "generateAfter pos clientId =
     (let parts = split CHR ''.'' pos;
          num = parseFloat (hd parts)
      in numberToString (numAdd num (Num 1)) @ ''.0.'' @ clientId)"

text \<open>
  \<^verbatim>\<open>!prevPos\<close> holds for \<^verbatim>\<open>null\<close> and for the empty string alike; \<open>absent\<close> is that test.
\<close>

definition absent :: "string option \<Rightarrow> bool" where
  "absent p = (case p of None \<Rightarrow> True | Some s \<Rightarrow> s = [])"

definition generatePosition :: "string option \<Rightarrow> string option \<Rightarrow> string \<Rightarrow> string" where
  "generatePosition prevPos nextPos clientId =
     (if absent prevPos \<and> absent nextPos then ''1.0.'' @ clientId
      else if absent prevPos then generateBefore (the nextPos) clientId
      else if absent nextPos then generateAfter (the prevPos) clientId
      else generateBetween (the prevPos) (the nextPos) clientId)"

definition comparePositions :: "string \<Rightarrow> string \<Rightarrow> number" where
  "comparePositions a b =
     (let aParts = split CHR ''.'' a;
          bParts = split CHR ''.'' b
      in if length aParts = 1 \<and> length bParts = 1
         then numSub (parseFloat a) (parseFloat b)
         else
           (let aNum = parseFloat (hd aParts);
                bNum = parseFloat (hd bParts)
            in if numNeq aNum bNum then numSub aNum bNum
               else
                 (let aHasSubPosition = (3 \<le> length aParts \<and> \<not> isNaN (parseFloat (aParts ! 1)));
                      bHasSubPosition = (3 \<le> length bParts \<and> \<not> isNaN (parseFloat (bParts ! 1)))
                  in if aHasSubPosition \<and> \<not> bHasSubPosition then Num 1
                     else if \<not> aHasSubPosition \<and> bHasSubPosition then Num (- 1)
                     else localeCompare a b)))"

section \<open>Data model (src/types/CRDT.ts)\<close>

datatype operationType = Insert | Delete

datatype fieldType = Content | Title | Description | Tags

text \<open>
  \<^verbatim>\<open>CRDTOperation\<close>, with the \<^verbatim>\<open>metadata\<close> that the undo manager attaches
  (\<^verbatim>\<open>CRDTOperationWithMetadata\<close>). The optional members \<^verbatim>\<open>char\<close> and \<^verbatim>\<open>charId\<close> are
  options: the engine casts every operation to \<^verbatim>\<open>InsertOperation\<close> or
  \<^verbatim>\<open>DeleteOperation\<close> and reads them without a check, so \<^verbatim>\<open>undefined\<close> flows on.
\<close>

datatype operation =
  Operation (op_id: string) (op_type: operationType) (op_field: fieldType)
    (op_position: string) (op_char: "string option") (op_charId: "string option")
    (op_clientId: string) (op_documentId: string) (op_timestamp: int)
    (op_metadata: "metadata option")
and metadata =
  Metadata (isLocalOperation: bool) (originalOperation: "operation option")
    (batchId: "string option")

text \<open>
  \<^verbatim>\<open>CRDTChar\<close>. Its \<^verbatim>\<open>id\<close> and \<^verbatim>\<open>char\<close> are copied from an operation's \<^verbatim>\<open>charId\<close> and
  \<^verbatim>\<open>char\<close> and so may be \<^verbatim>\<open>undefined\<close> as well.
\<close>

record crdtChar =
  c_id :: "string option"
  c_char :: "string option"
  c_position :: string
  c_clientId :: string
  c_deleted :: bool

section \<open>Clock, randomness and timers\<close>

text \<open>
  \<^verbatim>\<open>Date.now()\<close>, \<^verbatim>\<open>Math.random().toString(36).substr(2, 9)\<close> and \<^verbatim>\<open>window.setTimeout\<close>
  are the environment. The world holds what the \<open>k\<close>-th read of the clock and of the
  random source returns, how many reads have happened, and the pending timers (handle
  and the field whose batch the callback finalizes).
\<close>

record world =
  clock :: "nat \<Rightarrow> int"
  randomDigits :: "nat \<Rightarrow> string"
  clockReads :: nat
  randomReads :: nat
  timerHandles :: nat
  pendingTimers :: "(nat \<times> fieldType) list"

definition dateNow :: "world \<Rightarrow> int \<times> world" where
  "dateNow w = (clock w (clockReads w), w\<lparr>clockReads := Suc (clockReads w)\<rparr>)"

definition mathRandom :: "world \<Rightarrow> string \<times> world" where
  "mathRandom w = (randomDigits w (randomReads w), w\<lparr>randomReads := Suc (randomReads w)\<rparr>)"

definition setTimeout :: "fieldType \<Rightarrow> world \<Rightarrow> nat \<times> world" where
  "setTimeout field w =
     (let h = Suc (timerHandles w)
      in (h, w\<lparr>timerHandles := h, pendingTimers := pendingTimers w @ [(h, field)]\<rparr>))"

definition clearTimeout :: "nat \<Rightarrow> world \<Rightarrow> world" where
  "clearTimeout h w = w\<lparr>pendingTimers := filter (\<lambda>t. fst t \<noteq> h) (pendingTimers w)\<rparr>"

definition generateOperationId :: "string \<Rightarrow> world \<Rightarrow> string \<times> world" where
  "generateOperationId clientId w =
     (case dateNow w of (t, w1) \<Rightarrow>
        (case mathRandom w1 of (r, w2) \<Rightarrow>
           (clientId @ ''_'' @ showInt t @ ''_'' @ r, w2)))"

definition generateCharId :: "string \<Rightarrow> world \<Rightarrow> string \<times> world" where
  "generateCharId clientId w =
     (case dateNow w of (t, w1) \<Rightarrow>
        (case mathRandom w1 of (r, w2) \<Rightarrow>
           (''char_'' @ clientId @ ''_'' @ showInt t @ ''_'' @ r, w2)))"

section \<open>The single-field engine (class CRDTEngine)\<close>

text \<open>
  \<^verbatim>\<open>characters\<close> is a \<^verbatim>\<open>Map\<close>: it iterates in insertion order, and \<^verbatim>\<open>set\<close> on a present
  key replaces the value in place. That is \<^const>\<open>AList.update\<close> on an association
  list; \<^verbatim>\<open>get\<close> is \<^const>\<open>map_of\<close>. The key may be \<^verbatim>\<open>undefined\<close> (\<open>None\<close>).
\<close>

record engine =
  e_content :: string
  e_operations :: "operation list"
  e_characters :: "(string option \<times> crdtChar) list"
  e_documentId :: string
  e_clientId :: string

definition newEngine :: "string \<Rightarrow> string \<Rightarrow> engine" where
  "newEngine documentId clientId =
     \<lparr>e_content = [], e_operations = [], e_characters = [],
      e_documentId = documentId, e_clientId = clientId\<rparr>"

text \<open>
  \<^verbatim>\<open>Array.prototype.sort\<close> with a comparator is stable. It is modelled by a stable
  insertion sort: an element goes in front of the first element that the comparator
  puts after it. For a comparator that is a consistent order on the elements every
  stable sort gives this result; for an inconsistent one the host leaves the result
  open.
\<close>

fun insertBy :: "('a \<Rightarrow> 'a \<Rightarrow> number) \<Rightarrow> 'a \<Rightarrow> 'a list \<Rightarrow> 'a list" where
  "insertBy cmp x [] = [x]"
| "insertBy cmp x (y # ys) =
     (if numPositive (cmp y x) then x # y # ys else y # insertBy cmp x ys)"

definition sortBy :: "('a \<Rightarrow> 'a \<Rightarrow> number) \<Rightarrow> 'a list \<Rightarrow> 'a list" where
  "sortBy cmp xs = foldl (\<lambda>acc x. insertBy cmp x acc) [] xs"

definition getSortedVisibleChars :: "engine \<Rightarrow> crdtChar list" where
  "getSortedVisibleChars e =
     sortBy (\<lambda>a b. comparePositions (c_position a) (c_position b))
       (filter (\<lambda>c. \<not> c_deleted c) (map snd (e_characters e)))"

text \<open>\<^verbatim>\<open>join('')\<close> prints an \<^verbatim>\<open>undefined\<close> element as the empty string.\<close>

definition joinChars :: "crdtChar list \<Rightarrow> string" where
  "joinChars cs = concat (map (\<lambda>c. case c_char c of None \<Rightarrow> [] | Some s \<Rightarrow> s) cs)"

definition getContent :: "engine \<Rightarrow> string" where
  "getContent e = joinChars (getSortedVisibleChars e)"

definition getVisibleContent :: "engine \<Rightarrow> string" where
  "getVisibleContent e = joinChars (getSortedVisibleChars e)"

text \<open>\<^verbatim>\<open>xs[i]\<close> for an integer index: \<^verbatim>\<open>undefined\<close> outside the array.\<close>

definition elemAt :: "'a list \<Rightarrow> int \<Rightarrow> 'a option" where
  "elemAt xs i = (if 0 \<le> i \<and> i < int (length xs) then Some (xs ! nat i) else None)"

text \<open>\<^verbatim>\<open>c?.position || null\<close>: no character, or an empty position, gives \<^verbatim>\<open>null\<close>.\<close>

definition positionOrNull :: "crdtChar option \<Rightarrow> string option" where
  "positionOrNull c =
     (case c of None \<Rightarrow> None | Some x \<Rightarrow> (if c_position x = [] then None else Some (c_position x)))"

definition applyInsert :: "operation \<Rightarrow> crdtChar option \<Rightarrow> engine \<Rightarrow> world \<Rightarrow> engine \<times> world" where
  "applyInsert operation crdtChar e w =
     (case crdtChar of
        Some charToInsert \<Rightarrow>
          (e\<lparr>e_characters := AList.update (c_id charToInsert) charToInsert (e_characters e)\<rparr>, w)
      | None \<Rightarrow>
          (case generateCharId (op_clientId operation) w of (newId, w1) \<Rightarrow>
             (let charToInsert =
                    \<lparr>c_id = Some newId, c_char = op_char operation,
                     c_position = op_position operation,
                     c_clientId = op_clientId operation, c_deleted = False\<rparr>
              in (e\<lparr>e_characters :=
                       AList.update (c_id charToInsert) charToInsert (e_characters e)\<rparr>, w1))))"

text \<open>
  \<^verbatim>\<open>applyDelete\<close> sets \<^verbatim>\<open>deleted\<close> on the character object it found or created and
  stores the object under its own \<^verbatim>\<open>id\<close>. Every object of the map is stored under
  its own \<^verbatim>\<open>id\<close> (see \<open>keyedById\<close> below), so the in-place write and the \<^verbatim>\<open>set\<close> are
  one update at that key.
\<close>

definition markDeleted :: "crdtChar \<Rightarrow> engine \<Rightarrow> engine" where
  "markDeleted character e =
     e\<lparr>e_characters := AList.update (c_id character) (character\<lparr>c_deleted := True\<rparr>) (e_characters e)\<rparr>"

definition applyDelete :: "operation \<Rightarrow> engine \<Rightarrow> engine" where
  "applyDelete operation e =
     (case map_of (e_characters e) (op_charId operation) of
        Some character \<Rightarrow> markDeleted character e
      | None \<Rightarrow>
          (case find (\<lambda>c. c_position c = op_position operation \<and> c_char c = op_char operation)
                  (map snd (e_characters e)) of
             Some foundChar \<Rightarrow> markDeleted foundChar e
           | None \<Rightarrow>
               (let character =
                      \<lparr>c_id = op_charId operation, c_char = op_char operation,
                       c_position = op_position operation,
                       c_clientId = op_clientId operation, c_deleted = False\<rparr>;
                    e1 = e\<lparr>e_characters :=
                             AList.update (op_charId operation) character (e_characters e)\<rparr>
                in markDeleted character e1)))"

definition applyOperation :: "operation \<Rightarrow> crdtChar option \<Rightarrow> engine \<Rightarrow> world \<Rightarrow> engine \<times> world" where
  "applyOperation operation crdtChar e w =
     (if list_ex (\<lambda>op. op_id op = op_id operation) (e_operations e) then (e, w)
      else
        (case (case op_type operation of
                 Insert \<Rightarrow> applyInsert operation crdtChar e w
               | Delete \<Rightarrow> (applyDelete operation e, w)) of
           (e1, w1) \<Rightarrow>
             (let e2 = e1\<lparr>e_operations := e_operations e1 @ [operation]\<rparr>
              in (e2\<lparr>e_content := getContent e2\<rparr>, w1))))"

definition insertChar :: "string \<Rightarrow> int \<Rightarrow> engine \<Rightarrow> world \<Rightarrow> operation \<times> engine \<times> world" where
  "insertChar ch visiblePosition e w =
     (let sortedChars = getSortedVisibleChars e;
          prevChar = elemAt sortedChars (visiblePosition - 1);
          nextChar = elemAt sortedChars visiblePosition;
          position = generatePosition (positionOrNull prevChar) (positionOrNull nextChar)
                       (e_clientId e)
      in case generateCharId (e_clientId e) w of (charId, w1) \<Rightarrow>
           (let crdtChar = \<lparr>c_id = Some charId, c_char = Some ch, c_position = position,
                            c_clientId = e_clientId e, c_deleted = False\<rparr>
            in case generateOperationId (e_clientId e) w1 of (opId, w2) \<Rightarrow>
                 (case dateNow w2 of (t, w3) \<Rightarrow>
                    (let operation =
                           Operation opId Insert Content position (Some ch) None
                             (e_clientId e) (e_documentId e) t None
                     in case applyOperation operation (Some crdtChar) e w3 of
                          (e', w4) \<Rightarrow> (operation, e', w4)))))"

definition deleteChar :: "int \<Rightarrow> engine \<Rightarrow> world \<Rightarrow> operation option \<times> engine \<times> world" where
  "deleteChar visiblePosition e w =
     (let sortedChars = getSortedVisibleChars e
      in if visiblePosition < 0 \<or> int (length sortedChars) \<le> visiblePosition then (None, e, w)
         else
           (case elemAt sortedChars visiblePosition of
              None \<Rightarrow> (None, e, w)
            | Some charToDelete \<Rightarrow>
                (case generateOperationId (e_clientId e) w of (opId, w1) \<Rightarrow>
                   (case dateNow w1 of (t, w2) \<Rightarrow>
                      (let operation =
                             Operation opId Delete Content (c_position charToDelete)
                               (c_char charToDelete) (c_id charToDelete)
                               (e_clientId e) (e_documentId e) t None
                       in case applyOperation operation None e w2 of
                            (e', w3) \<Rightarrow> (Some operation, e', w3))))))"

definition mergeOperations :: "operation list \<Rightarrow> engine \<Rightarrow> world \<Rightarrow> engine \<times> world" where
  "mergeOperations ops e w =
     foldl (\<lambda>(e', w') operation. applyOperation operation None e' w') (e, w) ops"

record stats =
  totalOperations :: nat
  insertOperations :: nat
  deleteOperations :: nat
  totalCharacters :: nat
  deletedCharacters :: nat

definition getStats :: "engine \<Rightarrow> stats" where
  "getStats e =
     \<lparr>totalOperations = length (e_operations e),
      insertOperations = length (filter (\<lambda>op. op_type op = Insert) (e_operations e)),
      deleteOperations = length (filter (\<lambda>op. op_type op = Delete) (e_operations e)),
      totalCharacters = length (e_characters e),
      deletedCharacters = length (filter c_deleted (map snd (e_characters e)))\<rparr>"

text \<open>
  \<^verbatim>\<open>rebuildContent\<close> clears the map and walks \<^verbatim>\<open>this.operations\<close> with \<^verbatim>\<open>for ... of\<close>, which
  reads the live array by index; the loop below does the same. It ends because
  \<^verbatim>\<open>applyOperation\<close> leaves the engine alone when the operation is in the log.
\<close>

function rebuildLoop :: "nat \<Rightarrow> engine \<Rightarrow> world \<Rightarrow> engine \<times> world" where
  "rebuildLoop i e w =
     (if i < length (e_operations e)
      then (case applyOperation (e_operations e ! i) None e w of
              (e', w') \<Rightarrow> rebuildLoop (Suc i) e' w')
      else (e, w))"
  by pat_completeness auto
termination
  by (relation "measure (\<lambda>(i, e, w). length (e_operations e) - i)")
     (auto simp: applyOperation_def list_ex_iff)

declare rebuildLoop.simps [simp del]

definition rebuildContent :: "engine \<Rightarrow> world \<Rightarrow> engine \<times> world" where
  "rebuildContent e w = rebuildLoop 0 (e\<lparr>e_characters := []\<rparr>) w"

section \<open>The undo manager (class UndoRedoManager)\<close>

record undoStep =
  us_id :: string
  us_operations :: "operation list"
  us_timestamp :: int
  us_userId :: string
  us_field :: fieldType
  us_description :: string

record undoRedoState =
  undoStack :: "undoStep list"
  redoStack :: "undoStep list"
  currentBatch :: "operation list option"
  batchStartTime :: "int option"
  batchTimeout :: "nat option"

record undoRedoConfig =
  cfg_batchTimeout :: int
  cfg_maxUndoSteps :: int
  cfg_enableBatching :: bool

record undoRedoManager =
  undoRedoStates :: "fieldType \<Rightarrow> undoRedoState option"
  config :: undoRedoConfig
  userId :: string
  m_documentId :: string

definition initialUndoRedoState :: undoRedoState where
  "initialUndoRedoState =
     \<lparr>undoStack = [], redoStack = [], currentBatch = None, batchStartTime = None,
      batchTimeout = None\<rparr>"

definition newUndoRedoManager :: "string \<Rightarrow> string \<Rightarrow> undoRedoConfig \<Rightarrow> undoRedoManager" where
  "newUndoRedoManager uid documentId cfg =
     \<lparr>undoRedoStates = (\<lambda>field. Some initialUndoRedoState), config = cfg, userId = uid,
      m_documentId = documentId\<rparr>"

definition setState :: "fieldType \<Rightarrow> undoRedoState \<Rightarrow> undoRedoManager \<Rightarrow> undoRedoManager" where
  "setState field st m = m\<lparr>undoRedoStates := (undoRedoStates m)(field := Some st)\<rparr>"

definition generateBatchDescription :: "operation list \<Rightarrow> string" where
  "generateBatchDescription ops =
     (case ops of
        [] \<Rightarrow> ''No operations''
      | firstOp # rest \<Rightarrow>
          (if length ops = 1
           then (if op_type firstOp = Insert then ''Insert character'' else ''Delete character'')
           else if list_all (\<lambda>op. op_type op = op_type firstOp) ops
           then (if op_type firstOp = Insert
                 then ''Insert '' @ showNat (length ops) @ '' characters''
                 else ''Delete '' @ showNat (length ops) @ '' characters'')
           else ''Mixed operations ('' @ showNat (length ops) @ '')''))"

text \<open>\<^verbatim>\<open>if (state.batchTimeout) clearTimeout(state.batchTimeout)\<close>; handles start at 1.\<close>

definition clearPending :: "nat option \<Rightarrow> world \<Rightarrow> world" where
  "clearPending h w = (case h of None \<Rightarrow> w | Some k \<Rightarrow> (if k = 0 then w else clearTimeout k w))"

definition finalizeBatch :: "fieldType \<Rightarrow> undoRedoManager \<Rightarrow> world \<Rightarrow> undoRedoManager \<times> world" where
  "finalizeBatch field m w =
     (case undoRedoStates m field of
        None \<Rightarrow> (m, w)
      | Some state \<Rightarrow>
          (case currentBatch state of
             None \<Rightarrow> (m, w)
           | Some batch \<Rightarrow>
               (if length batch = 0 then (m, w)
                else
                  (case generateOperationId (userId m) w of (stepId, w1) \<Rightarrow>
                     (case dateNow w1 of (t, w2) \<Rightarrow>
                        (let undoStep =
                               \<lparr>us_id = stepId, us_operations = batch, us_timestamp = t,
                                us_userId = userId m, us_field = field,
                                us_description = generateBatchDescription batch\<rparr>;
                             pushed = undoStack state @ [undoStep];
                             limited = (if int (length pushed) > cfg_maxUndoSteps (config m)
                                        then tl pushed else pushed);
                             w3 = clearPending (batchTimeout state) w2
                         in (setState field
                               (state\<lparr>undoStack := limited, currentBatch := None,
                                      batchStartTime := None, batchTimeout := None\<rparr>) m,
                             w3)))))))"

definition getCurrentBatchId :: "fieldType \<Rightarrow> undoRedoManager \<Rightarrow> world \<Rightarrow> string \<times> world" where
  "getCurrentBatchId field m w =
     (case undoRedoStates m field of
        None \<Rightarrow> generateOperationId (userId m) w
      | Some state \<Rightarrow>
          (case currentBatch state of
             None \<Rightarrow> generateOperationId (userId m) w
           | Some batch \<Rightarrow>
               (case batch of
                  [] \<Rightarrow> generateOperationId (userId m) w
                | firstOp # rest \<Rightarrow>
                    (if op_id firstOp = [] then generateOperationId (userId m) w
                     else (op_id firstOp, w)))))"

definition shouldBatchOperation ::
  "fieldType \<Rightarrow> operation \<Rightarrow> undoRedoManager \<Rightarrow> world \<Rightarrow> bool \<times> world" where
  "shouldBatchOperation field operation m w =
     (case undoRedoStates m field of
        None \<Rightarrow> (False, w)
      | Some state \<Rightarrow>
          (case currentBatch state of
             None \<Rightarrow> (False, w)
           | Some batch \<Rightarrow>
               (case (case batchStartTime state of
                        None \<Rightarrow> (False, w)
                      | Some start \<Rightarrow>
                          (if start = 0 then (False, w)
                           else (case dateNow w of (now, w1) \<Rightarrow>
                                   (now - start > cfg_batchTimeout (config m), w1)))) of
                  (expired, w1) \<Rightarrow>
                    (if expired then (False, w1)
                     else if batch = [] then (True, w1)
                     else (op_type operation = op_type (last batch), w1)))))"

definition createNewBatch ::
  "fieldType \<Rightarrow> operation list \<Rightarrow> undoRedoManager \<Rightarrow> world \<Rightarrow> undoRedoManager \<times> world" where
  "createNewBatch field ops m w =
     (case undoRedoStates m field of
        None \<Rightarrow> (m, w)
      | Some state0 \<Rightarrow>
          (case (if currentBatch state0 \<noteq> None then finalizeBatch field m w else (m, w)) of
             (m1, w1) \<Rightarrow>
               (case undoRedoStates m1 field of
                  None \<Rightarrow> (m1, w1)
                | Some state \<Rightarrow>
                    (case dateNow w1 of (now, w2) \<Rightarrow>
                       (case setTimeout field (clearPending (batchTimeout state) w2) of
                          (h, w3) \<Rightarrow>
                            (setState field
                               (state\<lparr>currentBatch := Some ops, batchStartTime := Some now,
                                      batchTimeout := Some h\<rparr>) m1,
                             w3))))))"

definition addToBatch ::
  "fieldType \<Rightarrow> operation \<Rightarrow> undoRedoManager \<Rightarrow> world \<Rightarrow> undoRedoManager \<times> world" where
  "addToBatch field operation m w =
     (case undoRedoStates m field of
        None \<Rightarrow> createNewBatch field [operation] m w
      | Some state \<Rightarrow>
          (case currentBatch state of
             None \<Rightarrow> createNewBatch field [operation] m w
           | Some batch \<Rightarrow>
               (case setTimeout field (clearPending (batchTimeout state) w) of
                  (h, w1) \<Rightarrow>
                    (setState field
                       (state\<lparr>currentBatch := Some (batch @ [operation]),
                              batchTimeout := Some h\<rparr>) m,
                     w1))))"

definition clearRedoStack :: "fieldType \<Rightarrow> undoRedoManager \<Rightarrow> undoRedoManager" where
  "clearRedoStack field m =
     (case undoRedoStates m field of
        None \<Rightarrow> m
      | Some state \<Rightarrow> setState field (state\<lparr>redoStack := []\<rparr>) m)"

definition withMetadata :: "operation \<Rightarrow> metadata \<Rightarrow> operation" where
  "withMetadata operation md =
     Operation (op_id operation) (op_type operation) (op_field operation)
       (op_position operation) (op_char operation) (op_charId operation)
       (op_clientId operation) (op_documentId operation) (op_timestamp operation) (Some md)"

definition mgr_trackOperation ::
  "operation \<Rightarrow> undoRedoManager \<Rightarrow> world \<Rightarrow> undoRedoManager \<times> world" where
  "mgr_trackOperation operation m w =
     (if op_clientId operation \<noteq> userId m then (m, w)
      else
        (let field = op_field operation
         in case undoRedoStates m field of
              None \<Rightarrow> (m, w)
            | Some state \<Rightarrow>
                (case getCurrentBatchId field m w of (bid, w1) \<Rightarrow>
                   (let operationWithMetadata =
                          withMetadata operation (Metadata True None (Some bid))
                    in case (if cfg_enableBatching (config m)
                             then shouldBatchOperation field operation m w1
                             else (False, w1)) of
                         (batch, w2) \<Rightarrow>
                           (case (if batch then addToBatch field operationWithMetadata m w2
                                  else createNewBatch field [operationWithMetadata] m w2) of
                              (m1, w3) \<Rightarrow> (clearRedoStack field m1, w3))))))"

text \<open>A list is mapped in order while the world is threaded through the calls.\<close>

fun mapWorld :: "('a \<Rightarrow> world \<Rightarrow> 'b \<times> world) \<Rightarrow> 'a list \<Rightarrow> world \<Rightarrow> 'b list \<times> world" where
  "mapWorld f [] w = ([], w)"
| "mapWorld f (x # xs) w =
     (case f x w of (y, w1) \<Rightarrow> (case mapWorld f xs w1 of (ys, w2) \<Rightarrow> (y # ys, w2)))"

definition generateInverseOperation ::
  "operation \<Rightarrow> undoRedoManager \<Rightarrow> world \<Rightarrow> operation \<times> world" where
  "generateInverseOperation operation m w =
     (case generateOperationId (userId m) w of (newId, w1) \<Rightarrow>
        (case dateNow w1 of (t, w2) \<Rightarrow>
           (if op_type operation = Insert
            then (Operation newId Delete (op_field operation) (op_position operation)
                    (op_char operation) (Some (''undo_'' @ op_id operation))
                    (userId m) (m_documentId m) t (Some (Metadata True (Some operation) None)),
                  w2)
            else (Operation newId Insert (op_field operation) (op_position operation)
                    (op_char operation) None
                    (userId m) (m_documentId m) t (Some (Metadata True (Some operation) None)),
                  w2))))"

text \<open>The source walks the operations from the last index down to 0.\<close>

definition generateInverseOperations ::
  "operation list \<Rightarrow> undoRedoManager \<Rightarrow> world \<Rightarrow> operation list \<times> world" where
  "generateInverseOperations ops m w =
     mapWorld (\<lambda>operation. generateInverseOperation operation m) (rev ops) w"

definition redoOperation :: "operation \<Rightarrow> undoRedoManager \<Rightarrow> world \<Rightarrow> operation \<times> world" where
  "redoOperation operation m w =
     (case generateOperationId (userId m) w of (newId, w1) \<Rightarrow>
        (case dateNow w1 of (t, w2) \<Rightarrow>
           (Operation newId (op_type operation) (op_field operation) (op_position operation)
              (op_char operation) (op_charId operation) (op_clientId operation)
              (op_documentId operation) t (Some (Metadata True (Some operation) None)),
            w2)))"

definition createRedoOperations ::
  "operation list \<Rightarrow> undoRedoManager \<Rightarrow> world \<Rightarrow> operation list \<times> world" where
  "createRedoOperations ops m w = mapWorld (\<lambda>operation. redoOperation operation m) ops w"

text \<open>
  \<^verbatim>\<open>undo\<close> tests the stack before it finalizes the pending batch. After that the
  stack still holds a step (finalizing pushes one and drops at most one), so
  \<^verbatim>\<open>pop()\<close> is \<^const>\<open>last\<close> and \<^const>\<open>butlast\<close>.
\<close>

definition mgr_undo ::
  "fieldType \<Rightarrow> undoRedoManager \<Rightarrow> world \<Rightarrow> operation list option \<times> undoRedoManager \<times> world" where
  "mgr_undo field m w =
     (case undoRedoStates m field of
        None \<Rightarrow> (None, m, w)
      | Some state0 \<Rightarrow>
          (if length (undoStack state0) = 0 then (None, m, w)
           else
             (case (if currentBatch state0 \<noteq> None then finalizeBatch field m w else (m, w)) of
                (m1, w1) \<Rightarrow>
                  (case undoRedoStates m1 field of
                     None \<Rightarrow> (None, m1, w1)
                   | Some state \<Rightarrow>
                       (let undoStep = last (undoStack state)
                        in case generateInverseOperations (us_operations undoStep) m1 w1 of
                             (inverseOperations, w2) \<Rightarrow>
                               (Some inverseOperations,
                                setState field
                                  (state\<lparr>undoStack := butlast (undoStack state),
                                         redoStack := redoStack state @ [undoStep]\<rparr>) m1,
                                w2))))))"

definition mgr_redo ::
  "fieldType \<Rightarrow> undoRedoManager \<Rightarrow> world \<Rightarrow> operation list option \<times> undoRedoManager \<times> world" where
  "mgr_redo field m w =
     (case undoRedoStates m field of
        None \<Rightarrow> (None, m, w)
      | Some state \<Rightarrow>
          (if length (redoStack state) = 0 then (None, m, w)
           else
             (let redoStep = last (redoStack state)
              in case createRedoOperations (us_operations redoStep) m w of
                   (redoOperations, w1) \<Rightarrow>
                     (Some redoOperations,
                      setState field
                        (state\<lparr>redoStack := butlast (redoStack state),
                               undoStack := undoStack state @ [redoStep]\<rparr>) m,
                      w1))))"

definition mgr_canUndo :: "fieldType \<Rightarrow> undoRedoManager \<Rightarrow> bool" where
  "mgr_canUndo field m =
     (case undoRedoStates m field of None \<Rightarrow> False | Some state \<Rightarrow> length (undoStack state) > 0)"

definition mgr_canRedo :: "fieldType \<Rightarrow> undoRedoManager \<Rightarrow> bool" where
  "mgr_canRedo field m =
     (case undoRedoStates m field of None \<Rightarrow> False | Some state \<Rightarrow> length (redoStack state) > 0)"

definition mgr_finalizeAllBatches :: "undoRedoManager \<Rightarrow> world \<Rightarrow> undoRedoManager \<times> world" where
  "mgr_finalizeAllBatches m w =
     foldl (\<lambda>(m', w') field. finalizeBatch field m' w') (m, w) [Content, Title, Description, Tags]"

section \<open>The multi-field engine (class MultiFieldCRDTEngine)\<close>

text \<open>
  \<^verbatim>\<open>FieldState.characters\<close>, a shallow copy of the engine's map that shares its character
  objects and that no method reads, is left out of the field state.
\<close>

record fieldState =
  fs_content :: string
  fs_operations :: "operation list"

record multiFieldEngine =
  engines :: "fieldType \<Rightarrow> engine option"
  fieldStates :: "fieldType \<Rightarrow> fieldState option"
  undoRedoManager :: undoRedoManager
  mf_documentId :: string
  mf_clientId :: string

definition newMultiFieldCRDTEngine :: "string \<Rightarrow> string \<Rightarrow> multiFieldEngine" where
  "newMultiFieldCRDTEngine documentId clientId =
     \<lparr>engines = (\<lambda>field. Some (newEngine documentId clientId)),
      fieldStates = (\<lambda>field. Some \<lparr>fs_content = [], fs_operations = []\<rparr>),
      undoRedoManager =
        newUndoRedoManager clientId documentId
          \<lparr>cfg_batchTimeout = 1000, cfg_maxUndoSteps = 50, cfg_enableBatching = True\<rparr>,
      mf_documentId = documentId, mf_clientId = clientId\<rparr>"

definition mf_trackOperation ::
  "fieldType \<Rightarrow> operation \<Rightarrow> multiFieldEngine \<Rightarrow> world \<Rightarrow> multiFieldEngine \<times> world" where
  "mf_trackOperation field operation mf w =
     (case fieldStates mf field of
        None \<Rightarrow> (mf, w)
      | Some fieldState \<Rightarrow>
          (if op_clientId operation = mf_clientId mf
           then (case mgr_trackOperation operation (undoRedoManager mf) w of
                   (m1, w1) \<Rightarrow>
                     (mf\<lparr>fieldStates := (fieldStates mf)(field := Some
                            (fieldState\<lparr>fs_operations := fs_operations fieldState @ [operation]\<rparr>)),
                         undoRedoManager := m1\<rparr>,
                      w1))
           else (mf, w)))"

text \<open>\<^verbatim>\<open>{...operation, field, timestamp: Date.now()}\<close>\<close>

definition stampField :: "operation \<Rightarrow> fieldType \<Rightarrow> int \<Rightarrow> operation" where
  "stampField operation field t =
     Operation (op_id operation) (op_type operation) field (op_position operation)
       (op_char operation) (op_charId operation) (op_clientId operation)
       (op_documentId operation) t (op_metadata operation)"

definition mf_insertChar ::
  "fieldType \<Rightarrow> string \<Rightarrow> int \<Rightarrow> multiFieldEngine \<Rightarrow> world
     \<Rightarrow> operation option \<times> multiFieldEngine \<times> world" where
  "mf_insertChar field ch pos mf w =
     (case engines mf field of
        None \<Rightarrow> (None, mf, w)
      | Some engine \<Rightarrow>
          (case insertChar ch pos engine w of (operation, engine1, w1) \<Rightarrow>
             (case dateNow w1 of (t, w2) \<Rightarrow>
                (let fieldOperation = stampField operation field t;
                     mf1 = mf\<lparr>engines := (engines mf)(field := Some engine1)\<rparr>
                 in case mf_trackOperation field fieldOperation mf1 w2 of
                      (mf2, w3) \<Rightarrow> (Some fieldOperation, mf2, w3)))))"


definition updateFieldState :: "fieldType \<Rightarrow> multiFieldEngine \<Rightarrow> multiFieldEngine" where
  "updateFieldState field mf =
     (case engines mf field of
        None \<Rightarrow> mf
      | Some engine \<Rightarrow>
          (case fieldStates mf field of
             None \<Rightarrow> mf
           | Some fieldState \<Rightarrow>
               mf\<lparr>fieldStates := (fieldStates mf)(field := Some
                     (fieldState\<lparr>fs_content := getVisibleContent engine\<rparr>))\<rparr>))"

definition mf_applyOperation ::
  "operation \<Rightarrow> multiFieldEngine \<Rightarrow> world \<Rightarrow> multiFieldEngine \<times> world" where
  "mf_applyOperation operation mf w =
     (case engines mf (op_field operation) of
        None \<Rightarrow> (mf, w)
      | Some engine \<Rightarrow>
          (case applyOperation operation None engine w of
             (engine1, w1) \<Rightarrow>
               (updateFieldState (op_field operation)
                  (mf\<lparr>engines := (engines mf)(op_field operation := Some engine1)\<rparr>),
                w1)))"

definition applyAll ::
  "operation list \<Rightarrow> multiFieldEngine \<Rightarrow> world \<Rightarrow> multiFieldEngine \<times> world" where
  "applyAll ops mf w = foldl (\<lambda>(mf', w') operation. mf_applyOperation operation mf' w') (mf, w) ops"

definition getFieldContent :: "fieldType \<Rightarrow> multiFieldEngine \<Rightarrow> string" where
  "getFieldContent field mf =
     (case engines mf field of None \<Rightarrow> [] | Some engine \<Rightarrow> getVisibleContent engine)"

definition mf_undo ::
  "fieldType \<Rightarrow> multiFieldEngine \<Rightarrow> world \<Rightarrow> operation list option \<times> multiFieldEngine \<times> world" where
  "mf_undo field mf w =
     (case mgr_undo field (undoRedoManager mf) w of
        (None, m1, w1) \<Rightarrow> (None, mf\<lparr>undoRedoManager := m1\<rparr>, w1)
      | (Some inverseOperations, m1, w1) \<Rightarrow>
          (case applyAll inverseOperations (mf\<lparr>undoRedoManager := m1\<rparr>) w1 of
             (mf2, w2) \<Rightarrow> (Some inverseOperations, mf2, w2)))"

definition mf_redo ::
  "fieldType \<Rightarrow> multiFieldEngine \<Rightarrow> world \<Rightarrow> operation list option \<times> multiFieldEngine \<times> world" where
  "mf_redo field mf w =
     (case mgr_redo field (undoRedoManager mf) w of
        (None, m1, w1) \<Rightarrow> (None, mf\<lparr>undoRedoManager := m1\<rparr>, w1)
      | (Some redoOperations, m1, w1) \<Rightarrow>
          (case applyAll redoOperations (mf\<lparr>undoRedoManager := m1\<rparr>) w1 of
             (mf2, w2) \<Rightarrow> (Some redoOperations, mf2, w2)))"

definition mf_canUndo :: "fieldType \<Rightarrow> multiFieldEngine \<Rightarrow> bool" where
  "mf_canUndo field mf = mgr_canUndo field (undoRedoManager mf)"

definition mf_finalizeAllBatches :: "multiFieldEngine \<Rightarrow> world \<Rightarrow> multiFieldEngine \<times> world" where
  "mf_finalizeAllBatches mf w =
     (case mgr_finalizeAllBatches (undoRedoManager mf) w of
        (m1, w1) \<Rightarrow> (mf\<lparr>undoRedoManager := m1\<rparr>, w1))"

text \<open>
  A pending timer fires: the callback registered by \<^verbatim>\<open>addToBatch\<close> or \<^verbatim>\<open>createNewBatch\<close>
  finalizes the batch of its field. A handle that is not pending does nothing.
\<close>

definition timerFires :: "nat \<Rightarrow> multiFieldEngine \<Rightarrow> world \<Rightarrow> multiFieldEngine \<times> world" where
  "timerFires h mf w =
     (case map_of (pendingTimers w) h of
        None \<Rightarrow> (mf, w)
      | Some field \<Rightarrow>
          (case finalizeBatch field (undoRedoManager mf) (clearTimeout h w) of
             (m1, w1) \<Rightarrow> (mf\<lparr>undoRedoManager := m1\<rparr>, w1)))"

section \<open>Invariants and relations used in the statements\<close>

text \<open>
  A \<^verbatim>\<open>Map\<close> holds each key once, and the engine stores every character under its own
  \<^verbatim>\<open>id\<close> (\<^verbatim>\<open>set(charToInsert.id, charToInsert)\<close>, \<^verbatim>\<open>set(charId, character)\<close> with
  \<^verbatim>\<open>character.id = charId\<close>, \<^verbatim>\<open>set(character.id, character)\<close>).
\<close>

definition keyedById :: "engine \<Rightarrow> bool" where
  "keyedById e =
     (distinct (map fst (e_characters e)) \<and> list_all (\<lambda>(k, c). c_id c = k) (e_characters e))"

text \<open>
  \<open>tombstoneStep old new\<close>: every entry of \<open>old\<close> is still there, at the same place and
  under the same key, either unchanged or with nothing but its \<^verbatim>\<open>deleted\<close> flag set to
  true; \<open>new\<close> may have more entries behind them.
\<close>

definition tombstoneStep ::
  "(string option \<times> crdtChar) list \<Rightarrow> (string option \<times> crdtChar) list \<Rightarrow> bool" where
  "tombstoneStep old new =
     (length old \<le> length new \<and>
      list_all2 (\<lambda>(k, c) (k', c'). k' = k \<and> (c' = c \<or> c' = c\<lparr>c_deleted := True\<rparr>))
        old (take (length old) new))"

definition tombstoneMonotone :: "engine \<Rightarrow> engine \<Rightarrow> bool" where
  "tombstoneMonotone e e' =
     (tombstoneStep (e_characters e) (e_characters e') \<and>
      totalCharacters (getStats e) \<le> totalCharacters (getStats e') \<and>
      deletedCharacters (getStats e) \<le> deletedCharacters (getStats e'))"


section \<open>Scenarios\<close>

text \<open>A caller that types a text: one \<^verbatim>\<open>insertChar\<close> per character at the given indices.\<close>

fun insertAll ::
  "fieldType \<Rightarrow> (string \<times> int) list \<Rightarrow> multiFieldEngine \<Rightarrow> world \<Rightarrow> multiFieldEngine \<times> world" where
  "insertAll field [] mf w = (mf, w)"
| "insertAll field ((ch, i) # rest) mf w =
     (case mf_insertChar field ch i mf w of (operation, mf1, w1) \<Rightarrow> insertAll field rest mf1 w1)"

text \<open>
  Type \<^verbatim>\<open>hello\<close> into the empty content field of a new engine, close the batch, undo,
  redo, and read the field.
\<close>

definition helloUndoRedo :: "string \<Rightarrow> string \<Rightarrow> world \<Rightarrow> string" where
  "helloUndoRedo documentId clientId w =
     (case insertAll Content [(''h'', 0), (''e'', 1), (''l'', 2), (''l'', 3), (''o'', 4)]
             (newMultiFieldCRDTEngine documentId clientId) w of
        (mf1, w1) \<Rightarrow>
          (case mf_finalizeAllBatches mf1 w1 of
             (mf2, w2) \<Rightarrow>
               (case mf_undo Content mf2 w2 of
                  (undone, mf3, w3) \<Rightarrow>
                    (case mf_redo Content mf3 w3 of
                       (redone, mf4, w4) \<Rightarrow> getFieldContent Content mf4))))"

text \<open>A world for the concrete runs: a clock that ticks once per read, distinct random strings.\<close>

definition sampleWorld :: world where
  "sampleWorld =
     \<lparr>clock = (\<lambda>k. 1000 + int k), randomDigits = (\<lambda>k. ''r'' @ showNat k),
      clockReads = 0, randomReads = 0, timerHandles = 0, pendingTimers = []\<rparr>"

text \<open>
  An insert of \<^verbatim>\<open>h\<close> by client \<^verbatim>\<open>a\<close> and the delete of that character as client \<^verbatim>\<open>a\<close> issues
  it: the delete names the character id that \<^verbatim>\<open>a\<close>'s own engine generated.
\<close>

definition sampleInsert :: operation where
  "sampleInsert =
     Operation ''a_1700000000001_x1'' Insert Content ''1.0.a'' (Some ''h'') None ''a'' ''doc''
       1700000000002 None"

definition sampleDelete :: operation where
  "sampleDelete =
     Operation ''a_1700000000005_x2'' Delete Content ''1.0.a'' (Some ''h'')
       (Some ''char_a_1700000000000_x0'') ''a'' ''doc'' 1700000000006 None"

text \<open>
  The engine of client \<^verbatim>\<open>b\<close> after it received the insert, the world after that, and a
  second insert by client \<^verbatim>\<open>a\<close>.
\<close>

definition sampleEngine :: engine where
  "sampleEngine = fst (applyOperation sampleInsert None (newEngine ''doc'' ''b'') sampleWorld)"

definition sampleLaterWorld :: world where
  "sampleLaterWorld = snd (applyOperation sampleInsert None (newEngine ''doc'' ''b'') sampleWorld)"

definition sampleSecondInsert :: operation where
  "sampleSecondInsert =
     Operation ''a_1700000000009_x3'' Insert Content ''2.0.a'' (Some ''i'') None ''a'' ''doc''
       1700000000010 None"







section \<open>Decimal strings and keys\<close>

lemma lt10:
  "(d::nat) < 10 \<Longrightarrow>
     d = 0 \<or> d = 1 \<or> d = 2 \<or> d = 3 \<or> d = 4 \<or> d = 5 \<or> d = 6 \<or> d = 7 \<or> d = 8 \<or> d = 9"
  by arith

lemma digitChar_isDigit: "d < 10 \<Longrightarrow> isDigit (digitChar d)"
  using lt10[of d] by (auto simp: isDigit_def digitChar_def)

lemma digitValue_digitChar: "d < 10 \<Longrightarrow> digitValue (digitChar d) = d"
  using lt10[of d] by (auto simp: digitValue_def digitChar_def)

lemma showNat_digits: "list_all isDigit (showNat n)"
proof (induction n rule: showNat.induct)
  case (1 n)
  show ?case
  proof (cases "n < 10")
    case True
    then show ?thesis by (subst showNat.simps) (simp add: digitChar_isDigit)
  next
    case False
    then show ?thesis using "1.IH" by (subst showNat.simps) (simp add: digitChar_isDigit)
  qed
qed

lemma showNat_nonempty: "showNat n \<noteq> []"
  by (subst showNat.simps) simp

lemma digitsValue_append: "digitsValue (xs @ [c]) = digitsValue xs * 10 + digitValue c"
  by (simp add: digitsValue_def)

lemma digitsValue_showNat: "digitsValue (showNat n) = n"
proof (induction n rule: showNat.induct)
  case (1 n)
  show ?case
  proof (cases "n < 10")
    case True
    then show ?thesis by (subst showNat.simps) (simp add: digitsValue_def digitValue_digitChar)
  next
    case False
    then show ?thesis using "1.IH"
      by (subst showNat.simps) (simp add: digitsValue_append digitValue_digitChar)
  qed
qed

lemma takeWhile_all: "list_all P xs \<Longrightarrow> takeWhile P xs = xs"
  by (induction xs) auto

lemma takeWhile_showNat: "takeWhile isDigit (showNat n) = showNat n"
  by (rule takeWhile_all) (rule showNat_digits)

lemma hd_showNat_digit: "isDigit (hd (showNat n))"
  using showNat_digits[of n] showNat_nonempty[of n] by (cases "showNat n") auto

lemma parseFloat_showInt: "parseFloat (showInt i) = Num (of_int i)"
proof (cases "i < 0")
  case True
  then show ?thesis
    by (simp add: parseFloat_def showInt_def Let_def takeWhile_showNat showNat_nonempty
        digitsValue_showNat)
next
  case False
  have hdne: "hd (showNat (nat i)) \<noteq> CHR ''-''" "hd (showNat (nat i)) \<noteq> CHR ''+''"
    using hd_showNat_digit[of "nat i"] by (auto simp: isDigit_def)
  show ?thesis using False hdne
    by (simp add: parseFloat_def showInt_def Let_def takeWhile_showNat showNat_nonempty
        digitsValue_showNat)
qed

lemma numberToString_int: "numberToString (Num (of_int i)) = showInt i"
  by (auto simp: numberToString_def showInt_def abs_if nat_minus_as_int)

lemma not_digit_dot: "\<not> isDigit CHR ''.''"
  by (simp add: isDigit_def)

lemma showNat_no_dot: "CHR ''.'' \<notin> set (showNat n)"
proof
  assume "CHR ''.'' \<in> set (showNat n)"
  with showNat_digits[of n] have "isDigit CHR ''.''" by (simp add: list_all_iff)
  with not_digit_dot show False by simp
qed

lemma showInt_no_dot: "CHR ''.'' \<notin> set (showInt i)"
  by (simp add: showInt_def showNat_no_dot)

lemma split_nonempty: "split sep s \<noteq> []"
  by (induction s) (auto split: list.splits)

lemma split_prefix:
  "sep \<notin> set s \<Longrightarrow> split sep (s @ sep # rest) = s # split sep rest"
  by (induction s) (auto split: list.splits)

lemma split_no_sep: "sep \<notin> set s \<Longrightarrow> split sep s = [s]"
  by (induction s) (auto split: list.splits)

lemma split_key:
  "split CHR ''.'' (showInt m @ CHR ''.'' # CHR ''0'' # CHR ''.'' # c)
     = showInt m # ''0'' # split CHR ''.'' c"
  using split_prefix[of "CHR ''.''" "showInt m" "''0.'' @ c"] showInt_no_dot[of m]
  by simp

lemma compare_by_number:
  assumes a: "parseFloat (hd (split CHR ''.'' a)) = Num x"
      and b: "parseFloat (hd (split CHR ''.'' b)) = Num y"
      and la: "\<not> (length (split CHR ''.'' a) = 1 \<and> length (split CHR ''.'' b) = 1)"
      and ne: "x \<noteq> y"
  shows "comparePositions a b = Num (x - y)"
proof -
  have neq: "numNeq (Num x) (Num y)" using ne by (simp add: numNeq_def)
  have sub: "numSub (Num x) (Num y) = Num (x - y)" by (simp add: numSub_def)
  show ?thesis
    unfolding comparePositions_def Let_def
    by (simp only: la a b neq sub if_False if_True)
qed

section \<open>Position algebra\<close>

text \<open>
  Claim C5, as the code has it. The specification swaps the two cases: when only the
  next neighbour is absent the code calls \<^verbatim>\<open>generateAfter(prev)\<close> (comment: insert at end),
  which adds one to the integer part of \<open>prev\<close>, resets the sub-position to \<open>0\<close> and appends
  the client id, and the new key orders strictly after \<open>prev\<close>; when only the previous
  neighbour is absent it calls \<^verbatim>\<open>generateBefore(next)\<close>, which subtracts one, and the new
  key orders strictly before \<open>next\<close>. This holds for every key whose first component
  (the text before the first dot) is a decimal integer, an optional sign and decimal
  digits only, with a safe integer \<open>n\<close> as its value.
\<close>

theorem generatePosition_one_neighbour:
  assumes first: "decimalInteger (hd (split CHR ''.'' pos))"
      and num: "parseFloat (hd (split CHR ''.'' pos)) = Num (of_int n)"
      and safe: "safeInteger n"
      and ne: "pos \<noteq> []"
  shows "generatePosition (Some pos) None clientId = showInt (n + 1) @ ''.0.'' @ clientId
       \<and> numPositive (comparePositions (generatePosition (Some pos) None clientId) pos)
       \<and> generatePosition None (Some pos) clientId = showInt (n - 1) @ ''.0.'' @ clientId
       \<and> numNegative (comparePositions (generatePosition None (Some pos) clientId) pos)"
proof -
  have after: "generatePosition (Some pos) None clientId = showInt (n + 1) @ ''.0.'' @ clientId"
    using num ne numberToString_int[of "n + 1"]
    by (simp add: generatePosition_def absent_def generateAfter_def Let_def numAdd_def)
  have before: "generatePosition None (Some pos) clientId = showInt (n - 1) @ ''.0.'' @ clientId"
    using num ne numberToString_int[of "n - 1"]
    by (simp add: generatePosition_def absent_def generateBefore_def Let_def numSub_def)
  have hdk: "\<And>m. parseFloat (hd (split CHR ''.'' (showInt m @ ''.0.'' @ clientId))) = Num (of_int m)"
    by (simp add: split_key parseFloat_showInt)
  have lenk: "\<And>m. \<not> (length (split CHR ''.'' (showInt m @ ''.0.'' @ clientId)) = 1
                 \<and> length (split CHR ''.'' pos) = 1)"
    by (simp add: split_key)
  have "comparePositions (showInt (n + 1) @ ''.0.'' @ clientId) pos = Num (of_int (n + 1) - of_int n)"
    by (rule compare_by_number[OF hdk[of "n + 1"] num lenk[of "n + 1"]]) simp
  then have gt: "numPositive (comparePositions (showInt (n + 1) @ ''.0.'' @ clientId) pos)"
    by (simp add: numPositive_def)
  have "comparePositions (showInt (n - 1) @ ''.0.'' @ clientId) pos = Num (of_int (n - 1) - of_int n)"
    by (rule compare_by_number[OF hdk[of "n - 1"] num lenk[of "n - 1"]]) simp
  then have lt: "numNegative (comparePositions (showInt (n - 1) @ ''.0.'' @ clientId) pos)"
    by (simp add: numNegative_def)
  show ?thesis using after before gt lt by simp
qed

theorem generatePosition_one_neighbour_witness:
  "decimalInteger (hd (split CHR ''.'' ''7.0.a''))
   \<and> parseFloat (hd (split CHR ''.'' ''7.0.a'')) = Num (of_int 7) \<and> safeInteger 7
   \<and> generatePosition (Some ''7.0.a'') None ''b'' = ''8.0.b''
   \<and> numPositive (comparePositions (generatePosition (Some ''7.0.a'') None ''b'') ''7.0.a'')
   \<and> generatePosition None (Some ''7.0.a'') ''b'' = ''6.0.b''
   \<and> numNegative (comparePositions (generatePosition None (Some ''7.0.a'') ''b'') ''7.0.a'')"
proof -
  have first: "decimalInteger (hd (split CHR ''.'' ''7.0.a''))" by code_simp
  have num: "parseFloat (hd (split CHR ''.'' ''7.0.a'')) = Num (of_int 7)" by code_simp
  have safe: "safeInteger 7" by (simp add: safeInteger_def)
  have s8: "showInt (7 + 1) = ''8''" by code_simp
  have s6: "showInt (7 - 1) = ''6''" by code_simp
  have ne: "''7.0.a'' \<noteq> []" by simp
  note inst = generatePosition_one_neighbour[OF first num safe ne, of "''b''"]
  show ?thesis
    by (rule conjI[OF first
          conjI[OF num conjI[OF safe inst[unfolded s8 s6 append_Cons append_Nil]]]])
qed

text \<open>
  Claim C5 as the specification states it fails: with only the next neighbour absent
  the key generated from \<^verbatim>\<open>1.0.a\<close> is \<^verbatim>\<open>2.0.a\<close>, which does not order before \<^verbatim>\<open>1.0.a\<close>, and
  with only the previous neighbour absent it is \<^verbatim>\<open>0.0.a\<close>, which does not order after it.
\<close>

theorem spec_direction_counterexample:
  "generatePosition (Some ''1.0.a'') None ''a'' = ''2.0.a''
   \<and> \<not> numNegative (comparePositions (generatePosition (Some ''1.0.a'') None ''a'') ''1.0.a'')
   \<and> generatePosition None (Some ''1.0.a'') ''a'' = ''0.0.a''
   \<and> \<not> numPositive (comparePositions (generatePosition None (Some ''1.0.a'') ''a'') ''1.0.a'')"
  by code_simp

text \<open>
  Claim C6 (a key generated between two positions lies strictly between them) fails
  where the two neighbours share their integer part. \<^verbatim>\<open>generateBetween\<close> reads the numeric
  part with \<^verbatim>\<open>split('.')[0]\<close>, which cuts the fraction of an earlier midpoint off:
  \<^verbatim>\<open>1.0.a\<close> orders before \<^verbatim>\<open>1.5.a\<close>, the key generated between them is \<^verbatim>\<open>1.a\<close>, its numeric
  part equals that of \<^verbatim>\<open>1.0.a\<close>, and \<^verbatim>\<open>comparePositions\<close> puts it before \<^verbatim>\<open>1.0.a\<close>.
\<close>

theorem generateBetween_same_integer_part:
  "numNegative (comparePositions ''1.0.a'' ''1.5.a'')
   \<and> generatePosition (Some ''1.0.a'') (Some ''1.5.a'') ''a'' = ''1.a''
   \<and> parseFloat (hd (split CHR ''.'' ''1.a'')) = parseFloat (hd (split CHR ''.'' ''1.0.a''))
   \<and> numNegative (comparePositions ''1.a'' ''1.0.a'')"
  by code_simp

section \<open>The engine\<close>

lemma length_insertBy: "length (insertBy cmp x xs) = Suc (length xs)"
  by (induction xs) auto

lemma length_foldl_insertBy:
  "length (foldl (\<lambda>acc x. insertBy cmp x acc) acc xs) = length acc + length xs"
  by (induction xs arbitrary: acc) (auto simp: length_insertBy)

lemma length_sortBy: "length (sortBy cmp xs) = length xs"
  by (simp add: sortBy_def length_foldl_insertBy)

lemma applyOperation_skip:
  "list_ex (\<lambda>x. op_id x = op_id operation) (e_operations e) \<Longrightarrow> applyOperation operation c e w = (e, w)"
  by (simp add: applyOperation_def)

lemma applyOperation_logs:
  "list_ex (\<lambda>x. op_id x = op_id operation) (e_operations (fst (applyOperation operation c e w)))"
  by (auto simp: applyOperation_def list_ex_iff Let_def split: prod.splits)

text \<open>
  Claim C2: applying an operation twice leaves the engine as applying it once does
  (characters, operation log, cached and visible content), and the second call does
  not even read the clock; any operation that carries an id already in the log is
  ignored.
\<close>

theorem applyOperation_idempotent:
  "applyOperation operation c2 (fst (applyOperation operation c1 e w1)) w2
     = (fst (applyOperation operation c1 e w1), w2)
   \<and> getVisibleContent (fst (applyOperation operation c2 (fst (applyOperation operation c1 e w1)) w2))
     = getVisibleContent (fst (applyOperation operation c1 e w1))
   \<and> applyOperation (Operation (op_id operation) ty fld pos ch cid cl doc t md) c2
        (fst (applyOperation operation c1 e w1)) w2
     = (fst (applyOperation operation c1 e w1), w2)"
proof -
  let ?e1 = "fst (applyOperation operation c1 e w1)"
  have logged: "list_ex (\<lambda>x. op_id x = op_id operation) (e_operations ?e1)"
    by (rule applyOperation_logs)
  have once: "applyOperation operation c2 ?e1 w2 = (?e1, w2)"
    using logged by (rule applyOperation_skip)
  have same_id: "applyOperation (Operation (op_id operation) ty fld pos ch cid cl doc t md) c2 ?e1 w2 = (?e1, w2)"
    using logged by (simp add: applyOperation_def)
  show ?thesis using once same_id by simp
qed

lemma rebuildLoop_keeps:
  "rebuildLoop i e w = (e, w)"
proof (induction i e w rule: rebuildLoop.induct)
  case (1 i e w)
  show ?case
  proof (cases "i < length (e_operations e)")
    case True
    have skip: "applyOperation (e_operations e ! i) None e w = (e, w)"
      using True by (auto simp: applyOperation_def list_ex_iff)
    show ?thesis using True skip "1.IH"[OF True skip[symmetric]]
      by (subst rebuildLoop.simps) simp
  next
    case False
    then show ?thesis by (subst rebuildLoop.simps) simp
  qed
qed

lemma rebuildContent_empties: "rebuildContent e w = (e\<lparr>e_characters := []\<rparr>, w)"
  by (simp add: rebuildContent_def rebuildLoop_keeps)

lemma getVisibleContent_rebuild: "getVisibleContent (fst (rebuildContent e w)) = []"
  by (simp add: rebuildContent_empties getVisibleContent_def getSortedVisibleChars_def sortBy_def joinChars_def)

text \<open>
  Claim C4 (rebuild gives the state that incremental application gave) fails:
  \<^verbatim>\<open>rebuildContent\<close> clears the characters and then hands every logged operation to
  \<^verbatim>\<open>applyOperation\<close>, which skips each of them because its id is in the log. After one
  insert the visible content is \<^verbatim>\<open>h\<close>; after the rebuild the map and the content are empty.
\<close>

theorem rebuildContent_replays_nothing:
  "getVisibleContent (fst (applyOperation sampleInsert None (newEngine ''doc'' ''b'') sampleWorld))
     = ''h''
   \<and> e_characters (fst (rebuildContent
         (fst (applyOperation sampleInsert None (newEngine ''doc'' ''b'') sampleWorld))
         sampleWorld)) = []
   \<and> getVisibleContent (fst (rebuildContent
         (fst (applyOperation sampleInsert None (newEngine ''doc'' ''b'') sampleWorld))
         sampleWorld)) = []"
proof -
  let ?e = "fst (applyOperation sampleInsert None (newEngine ''doc'' ''b'') sampleWorld)"
  have before: "getVisibleContent ?e = ''h''"
    by code_simp
  have chars: "e_characters (fst (rebuildContent ?e sampleWorld)) = []"
    by (simp add: rebuildContent_empties)
  have content: "getVisibleContent (fst (rebuildContent ?e sampleWorld)) = []"
    by (rule getVisibleContent_rebuild)
  show ?thesis
    by (rule conjI[OF before conjI[OF chars content]])
qed

text \<open>
  Claim C1 (visible content does not depend on the order of delivery) fails for an
  insert and the delete of the inserted character. Insert first: the delete finds the
  character by position and value and tombstones it, the content is empty. Delete
  first: the delete creates a tombstone under the sender's character id, the insert
  then stores a new character under an id of its own, and the content is \<^verbatim>\<open>h\<close>.
\<close>

theorem delivery_order_changes_content:
  "getVisibleContent
     (fst (mergeOperations [sampleInsert, sampleDelete] (newEngine ''doc'' ''b'') sampleWorld)) = []
   \<and> getVisibleContent
     (fst (mergeOperations [sampleDelete, sampleInsert] (newEngine ''doc'' ''b'') sampleWorld)) = ''h''"
  by code_simp

section \<open>Tombstones\<close>

lemma update_fresh: "k \<notin> fst ` set al \<Longrightarrow> AList.update k v al = al @ [(k, v)]"
  by (induction al) auto

lemma tombstoneStep_append: "tombstoneStep al (al @ xs)"
  by (simp add: tombstoneStep_def list_all2_same split_def)

lemma tombstoneStep_refl: "tombstoneStep al al"
  using tombstoneStep_append[of al "[]"] by simp

lemma mark_related:
  "distinct (map fst al) \<Longrightarrow> (k, c) \<in> set al \<Longrightarrow>
   list_all2 (\<lambda>(k, c) (k', c'). k' = k \<and> (c' = c \<or> c' = c\<lparr>c_deleted := True\<rparr>))
     al (AList.update k (c\<lparr>c_deleted := True\<rparr>) al)"
proof (induction al)
  case Nil
  then show ?case by simp
next
  case (Cons p al)
  show ?case
  proof (cases "fst p = k")
    case True
    with Cons.prems have "p = (k, c)"
      by (cases p) (auto simp: image_iff)
    then show ?thesis by (simp add: list_all2_same split_def)
  next
    case False
    with Cons.prems have "(k, c) \<in> set al" "distinct (map fst al)" by auto
    with Cons.IH False show ?thesis by (simp add: split_def)
  qed
qed

lemma length_update_present:
  "k \<in> fst ` set al \<Longrightarrow> length (AList.update k v al) = length al"
  by (induction al) auto

lemma tombstoneStep_mark:
  assumes "distinct (map fst al)" and "(k, c) \<in> set al"
  shows "tombstoneStep al (AList.update k (c\<lparr>c_deleted := True\<rparr>) al)"
proof -
  have len: "length (AList.update k (c\<lparr>c_deleted := True\<rparr>) al) = length al"
    using assms(2) by (intro length_update_present) force
  show ?thesis
    using mark_related[OF assms] len by (simp add: tombstoneStep_def)
qed

lemma related_deleted_count:
  "list_all2 (\<lambda>(k, c) (k', c'). k' = k \<and> (c' = c \<or> c' = c\<lparr>c_deleted := True\<rparr>)) old new \<Longrightarrow>
   length (filter c_deleted (map snd old)) \<le> length (filter c_deleted (map snd new))"
  by (induction old new rule: list_all2_induct) (auto simp: split_def)

lemma tombstoneStep_counts:
  assumes "tombstoneStep old new"
  shows "length old \<le> length new"
    and "length (filter c_deleted (map snd old)) \<le> length (filter c_deleted (map snd new))"
proof -
  show "length old \<le> length new" using assms by (simp add: tombstoneStep_def)
  from assms have related:
    "list_all2 (\<lambda>(k, c) (k', c'). k' = k \<and> (c' = c \<or> c' = c\<lparr>c_deleted := True\<rparr>))
       old (take (length old) new)"
    by (simp add: tombstoneStep_def)
  have "length (filter c_deleted (map snd old))
        \<le> length (filter c_deleted (map snd (take (length old) new)))"
    by (rule related_deleted_count[OF related])
  also have "\<dots> \<le> length (filter c_deleted (map snd (take (length old) new @ drop (length old) new)))"
    by (simp del: append_take_drop_id)
  finally show "length (filter c_deleted (map snd old)) \<le> length (filter c_deleted (map snd new))"
    by simp
qed

lemma tombstoneMonotone_chars:
  "tombstoneStep (e_characters e) (e_characters e') \<Longrightarrow> tombstoneMonotone e e'"
  using tombstoneStep_counts[of "e_characters e" "e_characters e'"]
  by (simp add: tombstoneMonotone_def getStats_def)

lemma update_last:
  "k \<notin> fst ` set al \<Longrightarrow> AList.update k v' (al @ [(k, v)]) = al @ [(k, v')]"
  by (induction al) auto

lemma find_member: "find P xs = Some x \<Longrightarrow> x \<in> set xs \<and> P x"
  by (induction xs) (auto split: if_splits)

lemma keyed_member:
  "keyedById e \<Longrightarrow> (k, c) \<in> set (e_characters e) \<Longrightarrow> c_id c = k"
  by (auto simp: keyedById_def list_all_iff)

lemma keyed_update_values:
  "list_all (\<lambda>(k, c). c_id c = k) al \<Longrightarrow> c_id v = k \<Longrightarrow>
   list_all (\<lambda>(k, c). c_id c = k) (AList.update k v al)"
  by (induction al) auto

lemma keyed_update_list:
  "distinct (map fst al) \<Longrightarrow> list_all (\<lambda>(k, c). c_id c = k) al \<Longrightarrow> c_id v = k \<Longrightarrow>
   distinct (map fst (AList.update k v al)) \<and> list_all (\<lambda>(k, c). c_id c = k) (AList.update k v al)"
  by (simp add: AList.distinct_update keyed_update_values)

lemma keyedById_set:
  "keyedById e \<Longrightarrow> c_id v = k \<Longrightarrow>
   keyedById (e\<lparr>e_characters := AList.update k v (e_characters e)\<rparr>)"
  using keyed_update_list[of "e_characters e" v k] by (simp add: keyedById_def)

lemma keyedById_markDeleted: "keyedById e \<Longrightarrow> keyedById (markDeleted c e)"
  unfolding markDeleted_def by (rule keyedById_set) simp_all

lemma markDeleted_step:
  assumes "keyedById e" and "(k, c) \<in> set (e_characters e)"
  shows "tombstoneStep (e_characters e) (e_characters (markDeleted c e))"
proof -
  have "c_id c = k" using assms by (rule keyed_member)
  moreover have "distinct (map fst (e_characters e))" using assms(1) by (simp add: keyedById_def)
  ultimately show ?thesis
    using tombstoneStep_mark[of "e_characters e" k c] assms(2) by (simp add: markDeleted_def)
qed

lemma applyDelete_step:
  assumes keyed: "keyedById e"
  shows "tombstoneStep (e_characters e) (e_characters (applyDelete operation e))"
proof (cases "map_of (e_characters e) (op_charId operation)")
  case (Some character)
  then have "(op_charId operation, character) \<in> set (e_characters e)" by (rule map_of_SomeD)
  with keyed have "tombstoneStep (e_characters e) (e_characters (markDeleted character e))"
    by (rule markDeleted_step)
  with Some show ?thesis by (simp add: applyDelete_def)
next
  case None
  show ?thesis
  proof (cases "find (\<lambda>c. c_position c = op_position operation \<and> c_char c = op_char operation)
                  (map snd (e_characters e))")
    case (Some foundChar)
    then have "foundChar \<in> set (map snd (e_characters e))" using find_member by fast
    then obtain k where "(k, foundChar) \<in> set (e_characters e)" by auto
    with keyed have "tombstoneStep (e_characters e) (e_characters (markDeleted foundChar e))"
      by (rule markDeleted_step)
    with None Some show ?thesis by (simp add: applyDelete_def)
  next
    case noMatch: None
    have fresh: "op_charId operation \<notin> fst ` set (e_characters e)"
      using None by (simp add: map_of_eq_None_iff)
    have "e_characters (applyDelete operation e)
          = e_characters e @ [(op_charId operation,
              \<lparr>c_id = op_charId operation, c_char = op_char operation,
               c_position = op_position operation, c_clientId = op_clientId operation,
               c_deleted = True\<rparr>)]"
      using None noMatch fresh
      by (simp add: applyDelete_def Let_def markDeleted_def update_fresh update_last)
    then show ?thesis by (simp add: tombstoneStep_append)
  qed
qed

lemma keyedById_applyDelete: "keyedById e \<Longrightarrow> keyedById (applyDelete operation e)"
  by (auto simp: applyDelete_def Let_def keyedById_markDeleted keyedById_set
      split: option.splits)

lemma applyInsert_chars:
  "e_characters (fst (applyInsert operation None e w))
     = AList.update (Some (fst (generateCharId (op_clientId operation) w)))
         \<lparr>c_id = Some (fst (generateCharId (op_clientId operation) w)),
          c_char = op_char operation, c_position = op_position operation,
          c_clientId = op_clientId operation, c_deleted = False\<rparr> (e_characters e)"
  by (simp add: applyInsert_def Let_def split: prod.splits)

lemma applyInsert_given_chars:
  "e_characters (fst (applyInsert operation (Some c) e w)) = AList.update (c_id c) c (e_characters e)"
  by (simp add: applyInsert_def)

lemma applyOperation_chars:
  "e_characters (fst (applyOperation operation given e w))
     = (if list_ex (\<lambda>x. op_id x = op_id operation) (e_operations e) then e_characters e
        else case op_type operation of
               Insert \<Rightarrow> e_characters (fst (applyInsert operation given e w))
             | Delete \<Rightarrow> e_characters (applyDelete operation e))"
proof (cases "list_ex (\<lambda>x. op_id x = op_id operation) (e_operations e)")
  case True
  then show ?thesis by (simp add: applyOperation_def)
next
  case False
  show ?thesis
  proof (cases "op_type operation")
    case Insert
    with False show ?thesis
      by (cases "applyInsert operation given e w") (simp add: applyOperation_def Let_def)
  next
    case Delete
    with False show ?thesis by (simp add: applyOperation_def Let_def)
  qed
qed

lemma insertChar_parts:
  "insertChar ch i e w =
     (let position = generatePosition
            (positionOrNull (elemAt (getSortedVisibleChars e) (i - 1)))
            (positionOrNull (elemAt (getSortedVisibleChars e) i)) (e_clientId e);
          charId = fst (generateCharId (e_clientId e) w);
          w1 = snd (generateCharId (e_clientId e) w);
          opId = fst (generateOperationId (e_clientId e) w1);
          w2 = snd (generateOperationId (e_clientId e) w1);
          operation = Operation opId Insert Content position (Some ch) None
                        (e_clientId e) (e_documentId e) (fst (dateNow w2)) None
      in (operation,
          applyOperation operation
            (Some \<lparr>c_id = Some charId, c_char = Some ch, c_position = position,
                   c_clientId = e_clientId e, c_deleted = False\<rparr>) e (snd (dateNow w2))))"
  by (simp add: insertChar_def Let_def split: prod.splits)

lemma deleteChar_out_of_range:
  "i < 0 \<or> int (length (getSortedVisibleChars e)) \<le> i \<Longrightarrow> deleteChar i e w = (None, e, w)"
  by (simp add: deleteChar_def Let_def)

lemma deleteChar_cases:
  "deleteChar i e w = (None, e, w)
   \<or> (\<exists>operation w2. op_type operation = Delete
          \<and> deleteChar i e w = (Some operation, applyOperation operation None e w2))"
  by (auto simp: deleteChar_def Let_def split: option.splits prod.splits)

lemma applyOperation_step:
  assumes keyed: "keyedById e"
      and fresh: "op_type operation = Insert \<Longrightarrow>
                  \<not> list_ex (\<lambda>x. op_id x = op_id operation) (e_operations e) \<Longrightarrow>
                  (case given of Some c \<Rightarrow> c_id c
                   | None \<Rightarrow> Some (fst (generateCharId (op_clientId operation) w)))
                    \<notin> fst ` set (e_characters e)"
  shows "tombstoneStep (e_characters e) (e_characters (fst (applyOperation operation given e w)))"
proof (cases "list_ex (\<lambda>x. op_id x = op_id operation) (e_operations e)")
  case True
  then show ?thesis by (simp add: applyOperation_chars tombstoneStep_refl)
next
  case False
  show ?thesis
  proof (cases "op_type operation")
    case Delete
    with False keyed show ?thesis by (simp add: applyOperation_chars applyDelete_step)
  next
    case Insert
    show ?thesis
    proof (cases given)
      case None
      with fresh[OF Insert False] Insert False show ?thesis
        by (simp add: applyOperation_chars applyInsert_chars update_fresh tombstoneStep_append)
    next
      case (Some c)
      with fresh[OF Insert False] Insert False show ?thesis
        by (simp add: applyOperation_chars applyInsert_given_chars update_fresh tombstoneStep_append)
    qed
  qed
qed

lemma keyedById_newEngine: "keyedById (newEngine documentId clientId)"
  by (simp add: keyedById_def newEngine_def)

lemma keyedById_applyOperation:
  assumes "keyedById e"
  shows "keyedById (fst (applyOperation operation given e w))"
proof -
  have ins: "keyedById (fst (applyInsert operation given e w))"
    using assms
    by (cases given) (auto simp: applyInsert_def Let_def keyedById_set split: prod.splits)
  have del: "keyedById (applyDelete operation e)"
    using assms by (rule keyedById_applyDelete)
  show ?thesis
    using assms ins del
    by (cases "op_type operation") (simp_all add: keyedById_def applyOperation_chars)
qed

lemma keyedById_insertChar: "keyedById e \<Longrightarrow> keyedById (fst (snd (insertChar ch i e w)))"
  unfolding insertChar_parts Let_def snd_conv by (rule keyedById_applyOperation)

lemma keyedById_deleteChar: "keyedById e \<Longrightarrow> keyedById (fst (snd (deleteChar i e w)))"
  using deleteChar_cases[of i e w] by (auto simp: keyedById_applyOperation)

lemma separated_append_eq:
  "sep \<notin> set a \<Longrightarrow> sep \<notin> set a' \<Longrightarrow> a @ sep # r = a' @ sep # r' \<Longrightarrow> a = a' \<and> r = r'"
proof (induction a arbitrary: a')
  case Nil
  then show ?case by (cases a') auto
next
  case (Cons x a)
  then show ?case by (cases a') auto
qed

lemma not_digit_underscore: "\<not> isDigit CHR ''_''"
  by (simp add: isDigit_def)

lemma showNat_no_underscore: "CHR ''_'' \<notin> set (showNat n)"
proof
  assume "CHR ''_'' \<in> set (showNat n)"
  with showNat_digits[of n] have "isDigit CHR ''_''" by (simp add: list_all_iff)
  with not_digit_underscore show False by simp
qed

lemma showInt_no_underscore: "CHR ''_'' \<notin> set (showInt i)"
  by (simp add: showInt_def showNat_no_underscore)

lemma showInt_inject: "showInt i = showInt j \<Longrightarrow> i = j"
proof -
  assume "showInt i = showInt j"
  then have "parseFloat (showInt i) = parseFloat (showInt j)" by simp
  then show "i = j" by (simp add: parseFloat_showInt)
qed

lemma stamp_inject:
  assumes "showInt t @ ''_'' @ r = showInt t' @ ''_'' @ r'"
  shows "t = t' \<and> r = r'"
proof -
  from assms have "showInt t @ CHR ''_'' # r = showInt t' @ CHR ''_'' # r'" by simp
  then have "showInt t = showInt t' \<and> r = r'"
    by (rule separated_append_eq[OF showInt_no_underscore showInt_no_underscore])
  then show ?thesis by (simp add: showInt_inject)
qed

lemma generateCharId_value:
  "fst (generateCharId clientId w)
     = ''char_'' @ clientId @ ''_'' @ showInt (clock w (clockReads w)) @ ''_''
         @ randomDigits w (randomReads w)"
  by (simp add: generateCharId_def dateNow_def mathRandom_def)

lemma generateCharId_inject:
  assumes "fst (generateCharId clientId w) = fst (generateCharId clientId w')"
  shows "clock w (clockReads w) = clock w' (clockReads w')
       \<and> randomDigits w (randomReads w) = randomDigits w' (randomReads w')"
proof -
  from assms have "showInt (clock w (clockReads w)) @ ''_'' @ randomDigits w (randomReads w)
      = showInt (clock w' (clockReads w')) @ ''_'' @ randomDigits w' (randomReads w')"
    by (simp add: generateCharId_value)
  then show ?thesis by (rule stamp_inject)
qed

lemma keyedById_sampleEngine: "keyedById sampleEngine"
  by (simp add: sampleEngine_def keyedById_applyOperation keyedById_newEngine)

text \<open>
  Claim C9: no operation of the engine removes a character or shrinks the map, and the
  number of tombstones never goes down. For an engine whose characters are stored under
  their own ids (every engine reached from a new one, see \<open>keyedById_applyOperation\<close>),
  \<^verbatim>\<open>deleteChar\<close>, \<^verbatim>\<open>insertChar\<close> and \<^verbatim>\<open>applyOperation\<close> leave every stored character in its
  place, unchanged or with only its \<^verbatim>\<open>deleted\<close> flag set to true, and \<^verbatim>\<open>totalCharacters\<close> and
  \<^verbatim>\<open>deletedCharacters\<close> of \<^verbatim>\<open>getStats\<close> do not decrease. For the two operations that store a
  new character the id that \<^verbatim>\<open>generateCharId\<close> draws is taken to be new, as the data model
  says of character ids (globally unique, never reused).
\<close>

theorem characters_only_grow:
  assumes keyed: "keyedById e"
  shows "tombstoneMonotone e (fst (snd (deleteChar i e w)))
       \<and> (Some (fst (generateCharId (e_clientId e) w)) \<notin> fst ` set (e_characters e)
            \<longrightarrow> tombstoneMonotone e (fst (snd (insertChar ch i e w))))
       \<and> ((op_type operation = Insert
              \<longrightarrow> Some (fst (generateCharId (op_clientId operation) w)) \<notin> fst ` set (e_characters e))
            \<longrightarrow> tombstoneMonotone e (fst (applyOperation operation None e w)))"
proof (intro conjI impI)
  show "tombstoneMonotone e (fst (snd (deleteChar i e w)))"
  proof -
    from deleteChar_cases[of i e w] consider
        "deleteChar i e w = (None, e, w)"
      | operation w2 where "op_type operation = Delete"
          "deleteChar i e w = (Some operation, applyOperation operation None e w2)"
      by blast
    then show ?thesis
    proof cases
      case 1
      then show ?thesis by (simp add: tombstoneMonotone_chars tombstoneStep_refl)
    next
      case 2
      have "tombstoneStep (e_characters e)
              (e_characters (fst (applyOperation operation None e w2)))"
        using keyed 2(1) by (intro applyOperation_step) simp_all
      with 2(2) show ?thesis by (simp add: tombstoneMonotone_chars)
    qed
  qed
next
  assume fresh: "Some (fst (generateCharId (e_clientId e) w)) \<notin> fst ` set (e_characters e)"
  show "tombstoneMonotone e (fst (snd (insertChar ch i e w)))"
    unfolding insertChar_parts Let_def snd_conv
    by (rule tombstoneMonotone_chars, rule applyOperation_step[OF keyed]) (simp add: fresh)
next
  assume fresh: "op_type operation = Insert
      \<longrightarrow> Some (fst (generateCharId (op_clientId operation) w)) \<notin> fst ` set (e_characters e)"
  show "tombstoneMonotone e (fst (applyOperation operation None e w))"
    by (rule tombstoneMonotone_chars, rule applyOperation_step[OF keyed]) (simp add: fresh)
qed

theorem characters_only_grow_witness:
  "keyedById sampleEngine
   \<and> Some (fst (generateCharId (e_clientId sampleEngine) sampleLaterWorld))
        \<notin> fst ` set (e_characters sampleEngine)
   \<and> op_type sampleSecondInsert = Insert
   \<and> Some (fst (generateCharId (op_clientId sampleSecondInsert) sampleLaterWorld))
        \<notin> fst ` set (e_characters sampleEngine)
   \<and> tombstoneMonotone sampleEngine (fst (snd (deleteChar 0 sampleEngine sampleLaterWorld)))
   \<and> tombstoneMonotone sampleEngine (fst (snd (insertChar ''x'' 0 sampleEngine sampleLaterWorld)))
   \<and> tombstoneMonotone sampleEngine
        (fst (applyOperation sampleSecondInsert None sampleEngine sampleLaterWorld))"
proof -
  have local: "Some (fst (generateCharId (e_clientId sampleEngine) sampleLaterWorld))
        \<notin> fst ` set (e_characters sampleEngine)"
    by code_simp
  have kind: "op_type sampleSecondInsert = Insert"
    by (simp add: sampleSecondInsert_def)
  have remote: "Some (fst (generateCharId (op_clientId sampleSecondInsert) sampleLaterWorld))
        \<notin> fst ` set (e_characters sampleEngine)"
    by code_simp
  note inst = characters_only_grow[OF keyedById_sampleEngine,
      of 0 sampleLaterWorld "''x''" sampleSecondInsert]
  from inst have del:
    "tombstoneMonotone sampleEngine (fst (snd (deleteChar 0 sampleEngine sampleLaterWorld)))"
    by (rule conjunct1)
  from inst local have ins:
    "tombstoneMonotone sampleEngine (fst (snd (insertChar ''x'' 0 sampleEngine sampleLaterWorld)))"
    by blast
  from inst remote have app:
    "tombstoneMonotone sampleEngine
       (fst (applyOperation sampleSecondInsert None sampleEngine sampleLaterWorld))"
    by blast
  show ?thesis
    using keyedById_sampleEngine local kind remote del ins app by blast
qed

text \<open>
  Claim C10: an insert applied without a character object is stored under an id that
  the applying engine builds from its own clock and random source (only the prefix
  comes from the operation), so a different draw gives a different id; a delete that
  names a character id unknown to this engine is not found by id, and it tombstones
  the stored character exactly when position and value match and no earlier character
  of the map matches them.
\<close>

lemma find_append:
  "find P (xs @ ys) = (case find P xs of Some x \<Rightarrow> Some x | None \<Rightarrow> find P ys)"
  by (induction xs) auto

lemma map_of_markDeleted:
  "map_of (e_characters (markDeleted c e)) k
     = (if k = c_id c then Some (c\<lparr>c_deleted := True\<rparr>) else map_of (e_characters e) k)"
  by (simp add: markDeleted_def AList.update_conv')

lemma delete_after_remote_insert:
  assumes keyed: "keyedById e"
      and fresh: "Some gid \<notin> fst ` set (e_characters e)"
      and unknown: "op_charId d \<notin> fst ` set (e_characters e)"
      and other: "op_charId d \<noteq> Some gid"
      and stored: "c_id stored = Some gid" "\<not> c_deleted stored"
      and e1: "e_characters e1 = e_characters e @ [(Some gid, stored)]"
  shows "map_of (e_characters e1) (op_charId d) = None"
    and "map_of (e_characters (applyDelete d e1)) (Some gid)
         = Some (stored\<lparr>c_deleted :=
              (c_position stored = op_position d \<and> c_char stored = op_char d
               \<and> find (\<lambda>c. c_position c = op_position d \<and> c_char c = op_char d)
                     (map snd (e_characters e)) = None)\<rparr>)"
proof -
  let ?P = "\<lambda>c. c_position c = op_position d \<and> c_char c = op_char d"
  show lookup: "map_of (e_characters e1) (op_charId d) = None"
    using unknown other by (simp add: e1 map_of_eq_None_iff image_Un)
  have here: "map_of (e_characters e1) (Some gid) = Some stored"
    using fresh by (simp add: e1 map_add_def map_of_eq_None_iff[THEN iffD2])
  have same: "stored\<lparr>c_deleted := False\<rparr> = stored" using stored(2) by simp
  have findE1: "find ?P (map snd (e_characters e1))
      = (case find ?P (map snd (e_characters e)) of
           Some x \<Rightarrow> Some x
         | None \<Rightarrow> (if ?P stored then Some stored else None))"
    by (cases "find ?P (map snd (e_characters e))") (simp_all add: e1 find_append)
  show "map_of (e_characters (applyDelete d e1)) (Some gid)
         = Some (stored\<lparr>c_deleted :=
              (c_position stored = op_position d \<and> c_char stored = op_char d
               \<and> find ?P (map snd (e_characters e)) = None)\<rparr>)"
  proof (cases "find ?P (map snd (e_characters e))")
    case (Some fc)
    then have "fc \<in> set (map snd (e_characters e))" using find_member by fast
    then obtain k where k: "(k, fc) \<in> set (e_characters e)" by auto
    with keyed have "c_id fc = k" by (rule keyed_member)
    with k fresh have ne: "c_id fc \<noteq> Some gid" by force
    have "applyDelete d e1 = markDeleted fc e1"
      by (simp add: applyDelete_def lookup findE1 Some)
    with ne here Some same show ?thesis by (simp add: map_of_markDeleted)
  next
    case None
    show ?thesis
    proof (cases "?P stored")
      case True
      have "applyDelete d e1 = markDeleted stored e1"
        using True by (simp add: applyDelete_def lookup findE1 None)
      with True None stored(1) show ?thesis by (simp add: map_of_markDeleted)
    next
      case False
      have "map_of (e_characters (applyDelete d e1)) (Some gid) = map_of (e_characters e1) (Some gid)"
      proof -
        have none: "find ?P (map snd (e_characters e1)) = None"
          using False by (simp add: findE1 None)
        show ?thesis using other
          by (simp add: applyDelete_def lookup none Let_def markDeleted_def AList.update_conv')
      qed
      with here False same show ?thesis by auto
    qed
  qed
qed

theorem remote_insert_generates_id:
  assumes ins: "op_type operation = Insert"
      and new: "\<not> list_ex (\<lambda>x. op_id x = op_id operation) (e_operations e)"
      and keyed: "keyedById e"
      and fresh: "Some (fst (generateCharId (op_clientId operation) w)) \<notin> fst ` set (e_characters e)"
      and unknown: "op_charId d \<notin> fst ` set (e_characters e)"
      and other: "op_charId d \<noteq> Some (fst (generateCharId (op_clientId operation) w))"
  shows "(let gid = fst (generateCharId (op_clientId operation) w);
              stored = \<lparr>c_id = Some gid, c_char = op_char operation,
                        c_position = op_position operation,
                        c_clientId = op_clientId operation, c_deleted = False\<rparr>;
              e1 = fst (applyOperation operation None e w)
          in gid = ''char_'' @ op_clientId operation @ ''_'' @ showInt (clock w (clockReads w))
                     @ ''_'' @ randomDigits w (randomReads w)
           \<and> e_characters e1 = e_characters e @ [(Some gid, stored)]
           \<and> ((clock w' (clockReads w') \<noteq> clock w (clockReads w)
                 \<or> randomDigits w' (randomReads w') \<noteq> randomDigits w (randomReads w))
                \<longrightarrow> fst (generateCharId (op_clientId operation) w') \<noteq> gid)
           \<and> map_of (e_characters e1) (op_charId d) = None
           \<and> map_of (e_characters (applyDelete d e1)) (Some gid)
               = Some (stored\<lparr>c_deleted :=
                    (op_position operation = op_position d \<and> op_char operation = op_char d
                     \<and> find (\<lambda>c. c_position c = op_position d \<and> c_char c = op_char d)
                           (map snd (e_characters e)) = None)\<rparr>))"
proof -
  let ?gid = "fst (generateCharId (op_clientId operation) w)"
  let ?stored = "\<lparr>c_id = Some ?gid, c_char = op_char operation,
                   c_position = op_position operation,
                   c_clientId = op_clientId operation, c_deleted = False\<rparr>"
  let ?e1 = "fst (applyOperation operation None e w)"
  have spelled: "?gid = ''char_'' @ op_clientId operation @ ''_'' @ showInt (clock w (clockReads w))
                     @ ''_'' @ randomDigits w (randomReads w)"
    by (rule generateCharId_value)
  have chars: "e_characters ?e1 = e_characters e @ [(Some ?gid, ?stored)]"
    using ins new fresh by (simp add: applyOperation_chars applyInsert_chars update_fresh)
  have differ: "(clock w' (clockReads w') \<noteq> clock w (clockReads w)
                 \<or> randomDigits w' (randomReads w') \<noteq> randomDigits w (randomReads w))
                \<longrightarrow> fst (generateCharId (op_clientId operation) w') \<noteq> ?gid"
    using generateCharId_inject[of "op_clientId operation" w' w] by blast
  have lookup: "map_of (e_characters ?e1) (op_charId d) = None"
    by (rule delete_after_remote_insert(1)[OF keyed fresh unknown other _ _ chars]) simp_all
  have resolved: "map_of (e_characters (applyDelete d ?e1)) (Some ?gid)
      = Some (?stored\<lparr>c_deleted :=
           (c_position ?stored = op_position d \<and> c_char ?stored = op_char d
            \<and> find (\<lambda>c. c_position c = op_position d \<and> c_char c = op_char d)
                  (map snd (e_characters e)) = None)\<rparr>)"
    by (rule delete_after_remote_insert(2)[OF keyed fresh unknown other _ _ chars]) simp_all
  show ?thesis
    unfolding Let_def using spelled chars differ lookup resolved by simp
qed

theorem remote_insert_generates_id_witness:
  "op_type sampleSecondInsert = Insert
   \<and> \<not> list_ex (\<lambda>x. op_id x = op_id sampleSecondInsert) (e_operations sampleEngine)
   \<and> keyedById sampleEngine
   \<and> Some (fst (generateCharId (op_clientId sampleSecondInsert) sampleLaterWorld))
        \<notin> fst ` set (e_characters sampleEngine)
   \<and> op_charId sampleDelete \<notin> fst ` set (e_characters sampleEngine)
   \<and> op_charId sampleDelete
        \<noteq> Some (fst (generateCharId (op_clientId sampleSecondInsert) sampleLaterWorld))
   \<and> e_characters (fst (applyOperation sampleSecondInsert None sampleEngine sampleLaterWorld))
       = e_characters sampleEngine
         @ [(Some (fst (generateCharId (op_clientId sampleSecondInsert) sampleLaterWorld)),
             \<lparr>c_id = Some (fst (generateCharId (op_clientId sampleSecondInsert) sampleLaterWorld)),
              c_char = op_char sampleSecondInsert, c_position = op_position sampleSecondInsert,
              c_clientId = op_clientId sampleSecondInsert, c_deleted = False\<rparr>)]
   \<and> map_of (e_characters
               (fst (applyOperation sampleSecondInsert None sampleEngine sampleLaterWorld)))
         (op_charId sampleDelete) = None"
proof -
  have kind: "op_type sampleSecondInsert = Insert"
    by (simp add: sampleSecondInsert_def)
  have new: "\<not> list_ex (\<lambda>x. op_id x = op_id sampleSecondInsert) (e_operations sampleEngine)"
    by code_simp
  have fresh: "Some (fst (generateCharId (op_clientId sampleSecondInsert) sampleLaterWorld))
        \<notin> fst ` set (e_characters sampleEngine)"
    by code_simp
  have unknown: "op_charId sampleDelete \<notin> fst ` set (e_characters sampleEngine)"
    by code_simp
  have other: "op_charId sampleDelete
        \<noteq> Some (fst (generateCharId (op_clientId sampleSecondInsert) sampleLaterWorld))"
    by code_simp
  note inst = remote_insert_generates_id[OF kind new keyedById_sampleEngine fresh unknown other,
      of sampleWorld, unfolded Let_def]
  from inst have chars:
    "e_characters (fst (applyOperation sampleSecondInsert None sampleEngine sampleLaterWorld))
       = e_characters sampleEngine
         @ [(Some (fst (generateCharId (op_clientId sampleSecondInsert) sampleLaterWorld)),
             \<lparr>c_id = Some (fst (generateCharId (op_clientId sampleSecondInsert) sampleLaterWorld)),
              c_char = op_char sampleSecondInsert, c_position = op_position sampleSecondInsert,
              c_clientId = op_clientId sampleSecondInsert, c_deleted = False\<rparr>)]"
    by blast
  from inst have lookup:
    "map_of (e_characters
               (fst (applyOperation sampleSecondInsert None sampleEngine sampleLaterWorld)))
         (op_charId sampleDelete) = None"
    by blast
  show ?thesis
    using kind new keyedById_sampleEngine fresh unknown other chars lookup by blast
qed

section \<open>Requests outside the visible range\<close>

lemma applyOperation_ops:
  "\<not> list_ex (\<lambda>x. op_id x = op_id operation) (e_operations e) \<Longrightarrow>
   e_operations (fst (applyOperation operation given e w)) = e_operations e @ [operation]"
  by (cases "op_type operation"; cases given)
     (auto simp: applyOperation_def applyInsert_def applyDelete_def markDeleted_def Let_def
       split: prod.splits option.splits)

lemma elemAt_outside: "i < 0 \<or> int (length xs) \<le> i \<Longrightarrow> elemAt xs i = None"
  by (auto simp: elemAt_def)

lemma insertChar_outside_position:
  assumes "i < 0 \<or> int (length (getSortedVisibleChars e)) < i"
  shows "generatePosition
            (positionOrNull (elemAt (getSortedVisibleChars e) (i - 1)))
            (positionOrNull (elemAt (getSortedVisibleChars e) i)) (e_clientId e)
         = ''1.0.'' @ e_clientId e"
proof -
  have "elemAt (getSortedVisibleChars e) (i - 1) = None"
    using assms by (intro elemAt_outside) auto
  moreover have "elemAt (getSortedVisibleChars e) i = None"
    using assms by (intro elemAt_outside) auto
  ultimately show ?thesis
    by (simp add: positionOrNull_def generatePosition_def absent_def)
qed

text \<open>
  Claim C7, as the code has it. A delete request at an index outside the visible range
  returns no operation and leaves engine and world unchanged. \<^verbatim>\<open>insertChar\<close> has no range
  check (its result type is not nullable): at an index below zero or beyond the end it
  returns an insert operation at the root key \<^verbatim>\<open>1.0.clientId\<close>, and, its id being new,
  appends the operation to the log and stores the character.
\<close>

theorem out_of_range_requests:
  "(i < 0 \<or> int (length (getSortedVisibleChars e)) \<le> i \<longrightarrow> deleteChar i e w = (None, e, w))
   \<and> (i < 0 \<or> int (length (getSortedVisibleChars e)) < i \<longrightarrow>
        (let operation = fst (insertChar ch i e w);
             e' = fst (snd (insertChar ch i e w));
             charId = fst (generateCharId (e_clientId e) w)
         in op_type operation = Insert \<and> op_char operation = Some ch
            \<and> op_position operation = ''1.0.'' @ e_clientId e
            \<and> (\<not> list_ex (\<lambda>x. op_id x = op_id operation) (e_operations e) \<longrightarrow>
                 e_operations e' = e_operations e @ [operation]
                 \<and> e_characters e' =
                     AList.update (Some charId)
                       \<lparr>c_id = Some charId, c_char = Some ch,
                        c_position = ''1.0.'' @ e_clientId e,
                        c_clientId = e_clientId e, c_deleted = False\<rparr> (e_characters e))))"
proof (intro conjI impI)
  assume "i < 0 \<or> int (length (getSortedVisibleChars e)) \<le> i"
  then show "deleteChar i e w = (None, e, w)" by (rule deleteChar_out_of_range)
next
  assume out: "i < 0 \<or> int (length (getSortedVisibleChars e)) < i"
  note pos = insertChar_outside_position[OF out]
  show "let operation = fst (insertChar ch i e w);
            e' = fst (snd (insertChar ch i e w));
            charId = fst (generateCharId (e_clientId e) w)
        in op_type operation = Insert \<and> op_char operation = Some ch
           \<and> op_position operation = ''1.0.'' @ e_clientId e
           \<and> (\<not> list_ex (\<lambda>x. op_id x = op_id operation) (e_operations e) \<longrightarrow>
                e_operations e' = e_operations e @ [operation]
                \<and> e_characters e' =
                    AList.update (Some charId)
                      \<lparr>c_id = Some charId, c_char = Some ch,
                       c_position = ''1.0.'' @ e_clientId e,
                       c_clientId = e_clientId e, c_deleted = False\<rparr> (e_characters e))"
    unfolding insertChar_parts Let_def fst_conv snd_conv pos
    by (simp add: applyOperation_ops applyOperation_chars applyInsert_given_chars)
qed

theorem out_of_range_requests_witness:
  "((7::int) < 0 \<or> int (length (getSortedVisibleChars sampleEngine)) < 7)
   \<and> \<not> list_ex (\<lambda>x. op_id x = op_id (fst (insertChar ''x'' 7 sampleEngine sampleLaterWorld)))
         (e_operations sampleEngine)
   \<and> deleteChar 7 sampleEngine sampleLaterWorld = (None, sampleEngine, sampleLaterWorld)
   \<and> op_position (fst (insertChar ''x'' 7 sampleEngine sampleLaterWorld))
       = ''1.0.'' @ e_clientId sampleEngine
   \<and> e_operations (fst (snd (insertChar ''x'' 7 sampleEngine sampleLaterWorld)))
       = e_operations sampleEngine @ [fst (insertChar ''x'' 7 sampleEngine sampleLaterWorld)]"
proof -
  have beyond: "(7::int) < 0 \<or> int (length (getSortedVisibleChars sampleEngine)) < 7"
    by code_simp
  then have outside: "(7::int) < 0 \<or> int (length (getSortedVisibleChars sampleEngine)) \<le> 7"
    by auto
  have new: "\<not> list_ex (\<lambda>x. op_id x = op_id (fst (insertChar ''x'' 7 sampleEngine sampleLaterWorld)))
         (e_operations sampleEngine)"
    by code_simp
  note inst = out_of_range_requests[of 7 sampleEngine sampleLaterWorld "''x''"]
  from inst outside have del: "deleteChar 7 sampleEngine sampleLaterWorld = (None, sampleEngine, sampleLaterWorld)"
    by blast
  from inst beyond new have ins:
    "op_position (fst (insertChar ''x'' 7 sampleEngine sampleLaterWorld))
       = ''1.0.'' @ e_clientId sampleEngine
     \<and> e_operations (fst (snd (insertChar ''x'' 7 sampleEngine sampleLaterWorld)))
       = e_operations sampleEngine @ [fst (insertChar ''x'' 7 sampleEngine sampleLaterWorld)]"
    unfolding Let_def by blast
  show ?thesis using beyond new del ins by blast
qed

text \<open>
  Claim C7 as the specification states it fails for insert: at index 7 of an empty
  field a request returns an operation, and the field then reads \<^verbatim>\<open>h\<close>.
\<close>

theorem insert_out_of_range_counterexample:
  "int (length (getSortedVisibleChars (newEngine ''doc'' ''u''))) < 7
   \<and> getVisibleContent (newEngine ''doc'' ''u'') = []
   \<and> fst (mf_insertChar Content ''h'' 7 (newMultiFieldCRDTEngine ''doc'' ''u'') sampleWorld) \<noteq> None
   \<and> getVisibleContent (fst (snd (insertChar ''h'' 7 (newEngine ''doc'' ''u'') sampleWorld))) = ''h''"
  by code_simp

section \<open>Undo\<close>















end
